theory Spec2Isabelle
  imports Main
begin

section \<open>JavaScript values, objects and the store\<close>

text \<open>
  The program is a JavaScript file (\<^verbatim>\<open>jasmine-as-promised.js\<close>). Values are the
  primitives and references to objects in a store; function objects are objects that
  carry code. Numbers are integers (timeouts and test data); the program does no
  arithmetic on them.
\<close>

type_synonym addr = nat

datatype jsval = Undefined | Null | Bool bool | Num int | Str string | Ref addr

text \<open>What a \<^verbatim>\<open>throw\<close> carries: the built-in error kinds the program meets, with their
  message, or any value thrown by user code.\<close>

datatype exn = TypeError string | ReferenceError string | Error string | Thrown jsval

text \<open>A call completes normally with a value, or abruptly with a thrown exception; the
  third outcome belongs to the model only (the bound on the call depth was reached).\<close>

datatype 'a completion = Normal 'a | Throw exn | OutOfFuel

text \<open>User code (test bodies, getters) is abstracted to what it hands back when run.\<close>

datatype ubody = Returns jsval | Throws jsval

text \<open>A property is a data property, or an accessor whose getter is user code. The
  list of properties is what a read of the object sees, own and inherited alike.\<close>

datatype slot = Data jsval | Accessor string ubody

text \<open>
  The code of a function object:
  \<^item> \<open>UserFn name body\<close>, a function of the test (a step body, a follow-up, a
    constructor), known by a name;
  \<^item> \<open>HostRuns\<close> and \<open>HostWaitsFor\<close>, the host's \<^verbatim>\<open>Spec.prototype.runs\<close> and
    \<^verbatim>\<open>Spec.prototype.waitsFor\<close>;
  \<^item> \<open>ThenOf p\<close>, the \<^verbatim>\<open>then\<close> of the deferred computation number \<open>p\<close>;
  \<^item> the closures that the program creates, with the variables they capture:
    \<open>Interceptor runs waitsFor\<close>; \<open>OnReleaseWait k\<close> and \<open>Latch k\<close>, which share the
    variable \<^verbatim>\<open>result\<close> number \<open>k\<close>; \<open>Adapter runFn onReleaseWait\<close>, the function
    handed to the first \<^verbatim>\<open>runs\<close>; \<open>ToStringOf runs\<close>, the interceptor's \<^verbatim>\<open>toString\<close>.
\<close>

datatype code =
    UserFn string ubody
  | HostRuns
  | HostWaitsFor
  | ThenOf nat
  | Interceptor jsval jsval
  | OnReleaseWait nat
  | Adapter jsval jsval
  | Latch nat
  | ToStringOf jsval

record obj =
  fn :: "code option"
  props :: "(string \<times> slot) list"

text \<open>How a deferred computation settles, and what happens outside the program during
  one tick of the host's runner.\<close>

datatype outcome = Fulfilled jsval | Rejected jsval

datatype tick = Quiet | Settle nat outcome

text \<open>What the host has registered for a spec: a step (the spec and the body) or a
  poll (the spec, the condition and the timeout in milliseconds).\<close>

datatype block = RunBlock jsval jsval | WaitsForBlock jsval jsval int

text \<open>What can be observed of a run: a call of user code with its receiver and its
  arguments, a call of one of the host's two primitives with its receiver and its
  arguments, the result of one check of a poll's condition, a failure of the spec,
  a poll that timed out.\<close>

datatype event =
    Called string jsval "jsval list"
  | RunsCalled jsval "jsval list"
  | WaitsForCalled jsval "jsval list"
  | Polled bool
  | SpecFailed exn
  | TimedOut int

text \<open>
  The state: the store; the module's variable \<^verbatim>\<open>duckPunchedAlready\<close>; the variables
  \<^verbatim>\<open>result\<close>, one for each activation of the interceptor; the host's queue of blocks;
  the callbacks registered on deferred computations and the computations that have
  settled; the ticks to come; the events so far.
\<close>

record state =
  heap :: "obj list"
  duckPunchedAlready :: bool
  results :: "bool list"
  queue :: "block list"
  regs :: "(nat \<times> jsval \<times> jsval) list"
  settled :: "(nat \<times> outcome) list"
  world :: "tick list"
  trace :: "event list"

type_synonym 'a result = "'a completion \<times> state"

definition bind_c :: "'a result \<Rightarrow> ('a \<Rightarrow> state \<Rightarrow> 'b result) \<Rightarrow> 'b result" where
  "bind_c r f = (case r of
       (Normal v, s) \<Rightarrow> f v s
     | (Throw e, s) \<Rightarrow> (Throw e, s)
     | (OutOfFuel, s) \<Rightarrow> (OutOfFuel, s))"

text \<open>An address outside the store reads as an object without properties; no
  JavaScript value denotes one.\<close>

definition deref :: "state \<Rightarrow> addr \<Rightarrow> obj" where
  "deref s a = (if a < length (heap s) then heap s ! a else \<lparr>fn = None, props = []\<rparr>)"

definition alloc :: "obj \<Rightarrow> state \<Rightarrow> jsval \<times> state" where
  "alloc ob s = (Ref (length (heap s)), s\<lparr>heap := heap s @ [ob]\<rparr>)"

text \<open>\<^verbatim>\<open>typeof\<close>: \<^verbatim>\<open>null\<close> is an "object", a function object is a "function".\<close>

fun typeof :: "state \<Rightarrow> jsval \<Rightarrow> string" where
  "typeof s Undefined = ''undefined''"
| "typeof s Null = ''object''"
| "typeof s (Bool b) = ''boolean''"
| "typeof s (Num n) = ''number''"
| "typeof s (Str t) = ''string''"
| "typeof s (Ref a) = (case fn (deref s a) of None \<Rightarrow> ''object'' | Some c \<Rightarrow> ''function'')"

text \<open>Running user code leaves a mark in the trace: that is its side effect.\<close>

fun run_user :: "string \<Rightarrow> ubody \<Rightarrow> jsval \<Rightarrow> jsval list \<Rightarrow> state \<Rightarrow> jsval result" where
  "run_user name (Returns v) this args s =
     (Normal v, s\<lparr>trace := trace s @ [Called name this args]\<rparr>)"
| "run_user name (Throws e) this args s =
     (Throw (Thrown e), s\<lparr>trace := trace s @ [Called name this args]\<rparr>)"

text \<open>A property read \<^verbatim>\<open>x.p\<close>: a TypeError on \<^verbatim>\<open>undefined\<close> and \<^verbatim>\<open>null\<close>,
  \<^verbatim>\<open>undefined\<close> for a missing property, the getter's result for an accessor. Properties
  that primitives inherit from their wrappers are not modelled.\<close>

fun get_prop :: "jsval \<Rightarrow> string \<Rightarrow> state \<Rightarrow> jsval result" where
  "get_prop Undefined p s = (Throw (TypeError (''Cannot read property '' @ p @ '' of undefined'')), s)"
| "get_prop Null p s = (Throw (TypeError (''Cannot read property '' @ p @ '' of null'')), s)"
| "get_prop (Ref a) p s = (case map_of (props (deref s a)) p of
       None \<Rightarrow> (Normal Undefined, s)
     | Some (Data v) \<Rightarrow> (Normal v, s)
     | Some (Accessor g body) \<Rightarrow> run_user g body (Ref a) [] s)"
| "get_prop v p s = (Normal Undefined, s)"

section \<open>The detector\<close>

text \<open>
  \<^verbatim>\<open>isPromise = function( x ) {
      return typeof x === "object" && x !== null && typeof x.then === "function"; }\<close>
  The conjunction is evaluated left to right and stops at the first false operand, so
  \<^verbatim>\<open>x.then\<close> is read only from a non-null object.
\<close>

definition isPromise :: "jsval \<Rightarrow> state \<Rightarrow> bool result" where
  "isPromise x s =
     (if typeof s x = ''object'' then
        (if x \<noteq> Null then
           bind_c (get_prop x ''then'' s) (\<lambda>t s'. (Normal (typeof s' t = ''function''), s'))
         else (Normal False, s))
      else (Normal False, s))"

text \<open>\<^verbatim>\<open>isDefined = function( value ) { return typeof value != 'undefined'; }\<close>\<close>

definition isDefined :: "state \<Rightarrow> jsval \<Rightarrow> bool" where
  "isDefined s v = (typeof s v \<noteq> ''undefined'')"


section \<open>Calls\<close>

definition arg :: "jsval list \<Rightarrow> nat \<Rightarrow> jsval" where
  "arg args i = (if i < length args then args ! i else Undefined)"

fun truthy :: "jsval \<Rightarrow> bool" where
  "truthy Undefined = False"
| "truthy Null = False"
| "truthy (Bool b) = b"
| "truthy (Num n) = (n \<noteq> 0)"
| "truthy (Str t) = (t \<noteq> [])"
| "truthy (Ref a) = True"

text \<open>An assignment \<^verbatim>\<open>x.p = v\<close> in strict mode (the file is \<^verbatim>\<open>"use strict"\<close>): a
  TypeError on \<^verbatim>\<open>undefined\<close>, \<^verbatim>\<open>null\<close>, a primitive and a getter-only accessor.\<close>

fun set_prop :: "jsval \<Rightarrow> string \<Rightarrow> jsval \<Rightarrow> state \<Rightarrow> jsval result" where
  "set_prop (Ref a) p v s = (case map_of (props (deref s a)) p of
       Some (Accessor g body) \<Rightarrow> (Throw (TypeError (''Cannot set property '' @ p @ '' which has only a getter'')), s)
     | _ \<Rightarrow> (Normal v, s\<lparr>heap := (heap s)[a := (deref s a)\<lparr>props :=
                  (p, Data v) # filter (\<lambda>kv. fst kv \<noteq> p) (props (deref s a))\<rparr>]\<rparr>))"
| "set_prop x p v s = (Throw (TypeError (''Cannot set property '' @ p)), s)"

text \<open>The variable \<^verbatim>\<open>result\<close> of the \<open>k\<close>-th activation of the interceptor is the
  \<open>k\<close>-th cell of \<open>results\<close>.
  \<^verbatim>\<open>onReleaseWait = function() { return result = true; }\<close>\<close>

definition onReleaseWait :: "nat \<Rightarrow> state \<Rightarrow> jsval result" where
  "onReleaseWait k s = (Normal (Bool True), s\<lparr>results := (results s)[k := True]\<rparr>)"

text \<open>\<^verbatim>\<open>function() { return result; }\<close>, the function handed to \<^verbatim>\<open>waitsFor\<close>.\<close>

definition latch :: "nat \<Rightarrow> state \<Rightarrow> jsval result" where
  "latch k s = (Normal (Bool (k < length (results s) \<and> results s ! k)), s)"

text \<open>
  \<^verbatim>\<open>function() {
      var retVal = runFn.call();
      if ( isPromise(retVal) ) { retVal.then( onReleaseWait, onReleaseWait ); }
      else                     { onReleaseWait(); }
  }\<close>
  The parameter \<open>call\<close> is the meaning of a call \<^verbatim>\<open>f.call(this, args)\<close> for the callee:
  \<^verbatim>\<open>Function.prototype.call\<close>, a TypeError when \<open>f\<close> is no function (an object that
  brings a \<^verbatim>\<open>call\<close> of its own is not modelled). \<^verbatim>\<open>runFn.call()\<close> passes no receiver
  and no argument.
\<close>

definition adapter ::
  "(jsval \<Rightarrow> jsval \<Rightarrow> jsval list \<Rightarrow> state \<Rightarrow> jsval result) \<Rightarrow> jsval \<Rightarrow> jsval \<Rightarrow> state \<Rightarrow> jsval result" where
  "adapter call runFn onRW s =
     bind_c (call runFn Undefined [] s) (\<lambda>retVal s1.
       bind_c (isPromise retVal s1) (\<lambda>b s2.
         if b then
           bind_c (get_prop retVal ''then'' s2) (\<lambda>thn s3.
             bind_c (call thn retVal [onRW, onRW] s3) (\<lambda>r s4. (Normal Undefined, s4)))
         else
           bind_c (call onRW Undefined [] s2) (\<lambda>r s3. (Normal Undefined, s3))))"

text \<open>
  \<^verbatim>\<open>interceptor = function ( runFn, expectFn, timeOut ) {
      var result = false, onReleaseWait = function() { return result = true; };
      runs.call( this, function() { ... } );
      waitsFor.call( this, function() { return result; }, timeOut );
      if ( isDefined( expectFn ) ) { runs.call( this, expectFn ); }
  }\<close>
  with \<open>runs\<close> and \<open>waitsFor\<close> the values captured at installation.
\<close>

definition interceptor ::
  "(jsval \<Rightarrow> jsval \<Rightarrow> jsval list \<Rightarrow> state \<Rightarrow> jsval result) \<Rightarrow> jsval \<Rightarrow> jsval \<Rightarrow>
     jsval \<Rightarrow> jsval list \<Rightarrow> state \<Rightarrow> jsval result" where
  "interceptor call runs waitsFor this args s =
     (let runFn = arg args 0; expectFn = arg args 1; timeOut = arg args 2;
          k = length (results s);
          s1 = s\<lparr>results := results s @ [False]\<rparr>;
          (onRW, s2) = alloc \<lparr>fn = Some (OnReleaseWait k), props = []\<rparr> s1;
          (adp, s3) = alloc \<lparr>fn = Some (Adapter runFn onRW), props = []\<rparr> s2
      in bind_c (call runs this [adp] s3) (\<lambda>r s4.
           let (lat, s5) = alloc \<lparr>fn = Some (Latch k), props = []\<rparr> s4
           in bind_c (call waitsFor this [lat, timeOut] s5) (\<lambda>r s6.
                if isDefined s6 expectFn
                then bind_c (call runs this [expectFn] s6) (\<lambda>r s7. (Normal Undefined, s7))
                else (Normal Undefined, s6))))"

subsection \<open>The host framework\<close>

text \<open>
  Modelled from the spec: the host's two primitives, which are not part of this
  repository. Both return at once and the host's own runner loop does the work:
  \<^verbatim>\<open>runs(body)\<close> registers a step and \<^verbatim>\<open>waitsFor(condition, timeout)\<close> registers a
  poll; the runner executes what was registered in order, calling a step's body with no
  argument and the spec as receiver, and polling a condition once per runner tick until
  it is true or the timeout has elapsed. \<^verbatim>\<open>waitsFor\<close> recognises its arguments by
  their type, and uses its default when it is given no number.
\<close>

definition defaultTimeoutInterval :: int where
  "defaultTimeoutInterval = 5000"

definition TIMEOUT_INCREMENT :: int where
  "TIMEOUT_INCREMENT = 10"

definition host_runs :: "jsval \<Rightarrow> jsval list \<Rightarrow> state \<Rightarrow> jsval result" where
  "host_runs this args s =
     (Normal this, s\<lparr>queue := queue s @ [RunBlock this (arg args 0)],
                     trace := trace s @ [RunsCalled this args]\<rparr>)"

fun sniff :: "state \<Rightarrow> jsval list \<Rightarrow> jsval \<times> int \<Rightarrow> jsval \<times> int" where
  "sniff s [] acc = acc"
| "sniff s (a # as) (f, t) =
     (if typeof s a = ''function'' then sniff s as (a, t)
      else (case a of Num n \<Rightarrow> sniff s as (f, n) | _ \<Rightarrow> sniff s as (f, t)))"

definition host_waitsFor :: "jsval \<Rightarrow> jsval list \<Rightarrow> state \<Rightarrow> jsval result" where
  "host_waitsFor this args s =
     (let (f, t) = sniff s args (Null, 0)
      in (Normal this,
          s\<lparr>queue := queue s @ [WaitsForBlock this f (if t \<noteq> 0 then t else defaultTimeoutInterval)],
            trace := trace s @ [WaitsForCalled this args]\<rparr>))"

text \<open>The \<^verbatim>\<open>then\<close> of the deferred computation \<open>p\<close>: it registers the two callbacks.\<close>

definition then_register :: "nat \<Rightarrow> jsval list \<Rightarrow> state \<Rightarrow> jsval result" where
  "then_register p args s = (Normal Undefined, s\<lparr>regs := regs s @ [(p, arg args 0, arg args 1)]\<rparr>)"

subsection \<open>The text of a function\<close>

fun show_nat :: "nat \<Rightarrow> string" where
  "show_nat n = (if n < 10 then [char_of (48 + n)] else show_nat (n div 10) @ [char_of (48 + n mod 10)])"

declare show_nat.simps [simp del]

definition show_int :: "int \<Rightarrow> string" where
  "show_int i = (if i < 0 then CHR ''-'' # show_nat (nat (- i)) else show_nat (nat i))"

fun source :: "code \<Rightarrow> string" where
  "source (UserFn name body) = name"
| "source HostRuns = ''runs''"
| "source HostWaitsFor = ''waitsFor''"
| "source (ThenOf p) = ''then''"
| "source (Interceptor r w) = ''interceptor''"
| "source (OnReleaseWait k) = ''onReleaseWait''"
| "source (Adapter f g) = ''function''"
| "source (Latch k) = ''function''"
| "source (ToStringOf r) = ''function''"

text \<open>\<^verbatim>\<open>function () { return runs.toString(); }\<close>: the text of a function is abstracted
  to a label.\<close>

definition toStringOf ::
  "(jsval \<Rightarrow> jsval \<Rightarrow> jsval list \<Rightarrow> state \<Rightarrow> jsval result) \<Rightarrow> jsval \<Rightarrow> state \<Rightarrow> jsval result" where
  "toStringOf call r s = (case r of
       Undefined \<Rightarrow> (Throw (TypeError ''Cannot read property toString of undefined''), s)
     | Null \<Rightarrow> (Throw (TypeError ''Cannot read property toString of null''), s)
     | Bool b \<Rightarrow> (Normal (Str (if b then ''true'' else ''false'')), s)
     | Num n \<Rightarrow> (Normal (Str (show_int n)), s)
     | Str t \<Rightarrow> (Normal (Str t), s)
     | Ref a \<Rightarrow> (case map_of (props (deref s a)) ''toString'' of
           Some sl \<Rightarrow> bind_c (get_prop r ''toString'' s) (\<lambda>f s1. call f r [] s1)
         | None \<Rightarrow> (case fn (deref s a) of
               Some c \<Rightarrow> (Normal (Str (source c)), s)
             | None \<Rightarrow> (Normal (Str ''[object Object]''), s))))"

subsection \<open>Dispatch on the callee\<close>

definition dispatch ::
  "(jsval \<Rightarrow> jsval \<Rightarrow> jsval list \<Rightarrow> state \<Rightarrow> jsval result) \<Rightarrow>
     jsval \<Rightarrow> jsval \<Rightarrow> jsval list \<Rightarrow> state \<Rightarrow> jsval result" where
  "dispatch call f this args s = (case f of
       Ref a \<Rightarrow> (case fn (deref s a) of
           None \<Rightarrow> (Throw (TypeError ''not a function''), s)
         | Some (UserFn name body) \<Rightarrow> run_user name body this args s
         | Some HostRuns \<Rightarrow> host_runs this args s
         | Some HostWaitsFor \<Rightarrow> host_waitsFor this args s
         | Some (ThenOf p) \<Rightarrow> then_register p args s
         | Some (Interceptor r w) \<Rightarrow> interceptor call r w this args s
         | Some (OnReleaseWait k) \<Rightarrow> onReleaseWait k s
         | Some (Adapter runFn onRW) \<Rightarrow> adapter call runFn onRW s
         | Some (Latch k) \<Rightarrow> latch k s
         | Some (ToStringOf r) \<Rightarrow> toStringOf call r s)
     | _ \<Rightarrow> (Throw (TypeError ''not a function''), s))"

text \<open>A call of depth at most \<open>n\<close>: a function that the store does not bound (a
  closure may hold any reference) is run with a bound on the nesting of calls, and
  \<open>OutOfFuel\<close> tells that the bound was reached. The results below hold for every
  bound from the least sufficient one on.\<close>

primrec invoke :: "nat \<Rightarrow> jsval \<Rightarrow> jsval \<Rightarrow> jsval list \<Rightarrow> state \<Rightarrow> jsval result" where
  "invoke 0 = (\<lambda>f this args s. (OutOfFuel, s))"
| "invoke (Suc n) = dispatch (invoke n)"


subsection \<open>The host's runner\<close>

text \<open>
  Modelled from the spec: settlement of a deferred computation and the runner's loop.
  A deferred computation settles once; the callbacks registered on a settled one are
  called, the success callback with the value or the failure callback with the reason,
  when the runner next yields, and what they throw is not the runner's concern.
\<close>

definition apply_tick :: "tick \<Rightarrow> state \<Rightarrow> state" where
  "apply_tick t s = (case t of
       Quiet \<Rightarrow> s
     | Settle p out \<Rightarrow> (case map_of (settled s) p of
           None \<Rightarrow> s\<lparr>settled := settled s @ [(p, out)]\<rparr>
         | Some x \<Rightarrow> s))"

fun fire_all ::
  "(jsval \<Rightarrow> jsval \<Rightarrow> jsval list \<Rightarrow> state \<Rightarrow> jsval result) \<Rightarrow> (nat \<times> jsval \<times> jsval) list \<Rightarrow>
     state \<Rightarrow> unit result" where
  "fire_all call [] s = (Normal (), s)"
| "fire_all call ((p, onOk, onErr) # rs) s =
     (case map_of (settled s) p of
        None \<Rightarrow> fire_all call rs s
      | Some out \<Rightarrow>
          (let (cb, v) = (case out of Fulfilled x \<Rightarrow> (onOk, x) | Rejected x \<Rightarrow> (onErr, x))
           in if typeof s cb = ''function'' then
                (case call cb Undefined [v] s of
                   (OutOfFuel, s1) \<Rightarrow> (OutOfFuel, s1)
                 | (r, s1) \<Rightarrow> fire_all call rs s1)
              else fire_all call rs s))"

definition flush :: "(jsval \<Rightarrow> jsval \<Rightarrow> jsval list \<Rightarrow> state \<Rightarrow> jsval result) \<Rightarrow> state \<Rightarrow> unit result" where
  "flush call s =
     fire_all call (filter (\<lambda>r. map_of (settled s) (fst r) \<noteq> None) (regs s))
       (s\<lparr>regs := filter (\<lambda>r. map_of (settled s) (fst r) = None) (regs s)\<rparr>)"

definition pass_time :: "(jsval \<Rightarrow> jsval \<Rightarrow> jsval list \<Rightarrow> state \<Rightarrow> jsval result) \<Rightarrow> state \<Rightarrow> unit result" where
  "pass_time call s = (case world s of
       [] \<Rightarrow> flush call s
     | t # ts \<Rightarrow> flush call (apply_tick t (s\<lparr>world := ts\<rparr>)))"

text \<open>The poll: the condition is checked first; a true result completes the block, an
  elapsed timeout fails the spec and aborts it, otherwise one tick passes.\<close>

fun wait_loop ::
  "nat \<Rightarrow> (jsval \<Rightarrow> jsval \<Rightarrow> jsval list \<Rightarrow> state \<Rightarrow> jsval result) \<Rightarrow> jsval \<Rightarrow> jsval \<Rightarrow> int \<Rightarrow> int \<Rightarrow>
     state \<Rightarrow> bool result" where
  "wait_loop 0 call spec cond timeout waited s = (OutOfFuel, s)"
| "wait_loop (Suc n) call spec cond timeout waited s =
     (case call cond spec [] s of
        (OutOfFuel, s1) \<Rightarrow> (OutOfFuel, s1)
      | (Throw e, s1) \<Rightarrow> (Normal True, s1\<lparr>trace := trace s1 @ [SpecFailed e]\<rparr>)
      | (Normal v, s1) \<Rightarrow>
          (let s2 = s1\<lparr>trace := trace s1 @ [Polled (truthy v)]\<rparr>
           in if truthy v then (Normal True, s2)
              else if timeout \<le> waited then (Normal False, s2\<lparr>trace := trace s2 @ [TimedOut timeout]\<rparr>)
              else bind_c (pass_time call s2) (\<lambda>u s3.
                     wait_loop n call spec cond timeout (waited + TIMEOUT_INCREMENT) s3)))"

text \<open>One block: a step calls its body with the spec as receiver and no argument, and
  a body that throws fails the spec; a poll runs the loop above. The result tells
  whether the runner goes on.\<close>

definition run_block :: "nat \<Rightarrow> block \<Rightarrow> state \<Rightarrow> bool result" where
  "run_block n b s = (case b of
       RunBlock spec f \<Rightarrow>
         (case invoke n f spec [] s of
            (OutOfFuel, s1) \<Rightarrow> (OutOfFuel, s1)
          | (Throw e, s1) \<Rightarrow> (Normal True, s1\<lparr>trace := trace s1 @ [SpecFailed e]\<rparr>)
          | (Normal v, s1) \<Rightarrow> (Normal True, s1))
     | WaitsForBlock spec cond timeout \<Rightarrow> wait_loop n (invoke n) spec cond timeout 0 s)"

text \<open>The runner: the blocks of the queue in order; what a block registers while it
  runs comes next, before the blocks that were already waiting. A poll that timed out
  aborts the rest.\<close>

fun run_queue :: "nat \<Rightarrow> state \<Rightarrow> unit result" where
  "run_queue 0 s = (case queue s of [] \<Rightarrow> (Normal (), s) | b # rest \<Rightarrow> (OutOfFuel, s))"
| "run_queue (Suc n) s = (case queue s of
       [] \<Rightarrow> (Normal (), s)
     | b # rest \<Rightarrow>
         (case run_block n b (s\<lparr>queue := []\<rparr>) of
            (OutOfFuel, s1) \<Rightarrow> (OutOfFuel, s1)
          | (Throw e, s1) \<Rightarrow> (Throw e, s1)
          | (Normal go, s1) \<Rightarrow>
              (if go then run_queue n (s1\<lparr>queue := queue s1 @ rest\<rparr>)
               else (Normal (), s1\<lparr>queue := []\<rparr>))))"

section \<open>Installation\<close>

text \<open>
  \<^verbatim>\<open>function jasmineAsPromised(jasmine) {
      if ( duckPunchedAlready )    { return; }
      if ( !isDefined(jasmine) )   { return; }
      duckPunchedAlready = true;
      var runs     = jasmine.Spec.prototype.runs,
          waitsFor = jasmine.Spec.prototype.waitsFor,
          interceptor = function ( runFn, expectFn, timeOut ) { ... };
      interceptor.toString = function () { return runs.toString(); }
      jasmine.Spec.prototype.runs = interceptor;
  }\<close>
\<close>

definition jasmineAsPromised :: "jsval \<Rightarrow> state \<Rightarrow> jsval result" where
  "jasmineAsPromised jasmine s =
     (if duckPunchedAlready s then (Normal Undefined, s)
      else if \<not> isDefined s jasmine then (Normal Undefined, s)
      else
        bind_c (get_prop jasmine ''Spec'' (s\<lparr>duckPunchedAlready := True\<rparr>)) (\<lambda>sp1 s1.
        bind_c (get_prop sp1 ''prototype'' s1) (\<lambda>proto1 s2.
        bind_c (get_prop proto1 ''runs'' s2) (\<lambda>runs s3.
        bind_c (get_prop jasmine ''Spec'' s3) (\<lambda>sp2 s4.
        bind_c (get_prop sp2 ''prototype'' s4) (\<lambda>proto2 s5.
        bind_c (get_prop proto2 ''waitsFor'' s5) (\<lambda>waitsFor s6.
          let (icp, s7) = alloc \<lparr>fn = Some (Interceptor runs waitsFor), props = []\<rparr> s6;
              (ts, s8) = alloc \<lparr>fn = Some (ToStringOf runs), props = []\<rparr> s7
          in
        bind_c (set_prop icp ''toString'' ts s8) (\<lambda>r s9.
        bind_c (get_prop jasmine ''Spec'' s9) (\<lambda>sp3 s10.
        bind_c (get_prop sp3 ''prototype'' s10) (\<lambda>proto3 s11.
        bind_c (set_prop proto3 ''runs'' icp s11) (\<lambda>r s12. (Normal Undefined, s12))))))))))))"

subsection \<open>The Node.js entry point\<close>

text \<open>A module of Node's module tree: its id, its exports and its children.\<close>

datatype module = Module string jsval "module list"

text \<open>\<^verbatim>\<open>s.indexOf(t, from)\<close>: the first position, not before \<open>from\<close>, where \<open>t\<close>
  occurs in \<open>s\<close>, or \<open>-1\<close>; \<open>from\<close> is clamped to the string.\<close>

definition indexOf :: "string \<Rightarrow> string \<Rightarrow> int \<Rightarrow> int" where
  "indexOf s t from =
     (case find (\<lambda>i. take (length t) (drop i s) = t)
             [nat (max 0 (min from (int (length s)))) ..< Suc (length s)] of
        None \<Rightarrow> - 1
      | Some i \<Rightarrow> int i)"

text \<open>
  \<^verbatim>\<open>function findNodeJSTarget(moduleToTest, suffix) {
      if (moduleToTest.id.indexOf(suffix, moduleToTest.id.length - suffix.length) !== -1
          && moduleToTest.exports) { return moduleToTest.exports; }
      for ( var i = 0; i < moduleToTest.children.length; ++i ) {
          var found = findNodeJSTarget(moduleToTest.children[i], suffix);
          if (found) { return found; }
      }
  }\<close>
\<close>

fun findNodeJSTarget :: "module \<Rightarrow> string \<Rightarrow> jsval"
  and findInChildren :: "module list \<Rightarrow> string \<Rightarrow> jsval" where
  "findNodeJSTarget (Module mid exports children) suffix =
     (if indexOf mid suffix (int (length mid) - int (length suffix)) \<noteq> - 1 \<and> truthy exports
      then exports
      else findInChildren children suffix)"
| "findInChildren [] suffix = Undefined"
| "findInChildren (c # cs) suffix =
     (let found = findNodeJSTarget c suffix
      in if truthy found then found else findInChildren cs suffix)"

text \<open>What the entry point sees of its environment: whether \<^verbatim>\<open>process\<close> is Node's
  own; \<^verbatim>\<open>require.main\<close> (\<open>None\<close> when it is \<^verbatim>\<open>undefined\<close>, as it is when Node
  runs no script file, so that reading its \<^verbatim>\<open>id\<close> is a TypeError); the path separator;
  and the global \<^verbatim>\<open>jasmine\<close> (\<open>None\<close> when no such global is declared, so that
  evaluating the name is a ReferenceError).\<close>

record env =
  real_node :: bool
  main_module :: "module option"
  sep :: string
  jasmine_global :: "jsval option"

definition path_join :: "string \<Rightarrow> string list \<Rightarrow> string" where
  "path_join sp parts = (case parts of [] \<Rightarrow> ''.'' | p # ps \<Rightarrow> foldl (\<lambda>acc q. acc @ sp @ q) p ps)"

definition msg_no_module :: string where
  "msg_no_module =
     ''Attempted to automatically plug in to Jasmine, but could not detect a running Jasmine module.''"

definition msg_no_environment :: string where
  "msg_no_environment =
     ''Attempted to automatically plug in to Jasmine, but could not detect the environment. Plug in manually by passing the running Jasmine module.''"

text \<open>
  \<^verbatim>\<open>module.exports = function (target) {
      if (!target) {
          if (typeof process === "object" && ... === "[object process]") {
              var path = (require)("path");
              var suffix = path.join("jasmine", "lib", "jasmine.js");
              target = findNodeJSTarget(require.main, suffix);
              if ( !isDefined(target) ) { throw new Error(...); }
          } else if ( isDefined(jasmine) ) { target = jasmine; }
          else { throw new Error(...); }
      }
      jasmineAsPromised(target);
  };\<close>
\<close>

definition module_exports :: "env \<Rightarrow> jsval \<Rightarrow> state \<Rightarrow> jsval result" where
  "module_exports e target s =
     (if \<not> truthy target then
        (if real_node e then
           (let suffix = path_join (sep e) [''jasmine'', ''lib'', ''jasmine.js'']
            in case main_module e of
                 None \<Rightarrow> (Throw (TypeError ''Cannot read property id of undefined''), s)
               | Some m \<Rightarrow>
                   (let found = findNodeJSTarget m suffix
                    in if \<not> isDefined s found then (Throw (Error msg_no_module), s)
                       else bind_c (jasmineAsPromised found s) (\<lambda>r s1. (Normal Undefined, s1))))
         else (case jasmine_global e of
             None \<Rightarrow> (Throw (ReferenceError ''jasmine is not defined''), s)
           | Some j \<Rightarrow>
               if isDefined s j then bind_c (jasmineAsPromised j s) (\<lambda>r s1. (Normal Undefined, s1))
               else (Throw (Error msg_no_environment), s)))
      else bind_c (jasmineAsPromised target s) (\<lambda>r s1. (Normal Undefined, s1)))"

section \<open>The notions of the claims and the stores of the examples\<close>

definition empty_state :: state where
  "empty_state = \<lparr>heap = [], duckPunchedAlready = False, results = [], queue = [], regs = [],
      settled = [], world = [], trace = []\<rparr>"

text \<open>The values of the detector's examples: \<^verbatim>\<open>{ then: function(a,b){} }\<close> at address 0
  (its function at 1), \<^verbatim>\<open>{}\<close> at 2, \<^verbatim>\<open>{ then: "not a function" }\<close> at 3, and at 4 an
  object whose \<^verbatim>\<open>then\<close> is a getter that throws.\<close>

definition detector_store :: state where
  "detector_store = empty_state\<lparr>heap :=
     [\<lparr>fn = None, props = [(''then'', Data (Ref 1))]\<rparr>,
      \<lparr>fn = Some (UserFn ''function(a,b){}'' (Returns Undefined)), props = []\<rparr>,
      \<lparr>fn = None, props = []\<rparr>,
      \<lparr>fn = None, props = [(''then'', Data (Str ''not a function''))]\<rparr>,
      \<lparr>fn = None, props = [(''then'', Accessor ''get then'' (Throws (Str ''boom'')))]\<rparr>]\<rparr>"

text \<open>The spec's words for a deferred computation: a non-null value that
  \<^verbatim>\<open>typeof\<close> calls an object, with a property \<^verbatim>\<open>then\<close> whose value is callable.\<close>

definition is_deferred_shape :: "state \<Rightarrow> jsval \<Rightarrow> bool" where
  "is_deferred_shape s x = (case x of
       Ref a \<Rightarrow> fn (deref s a) = None \<and>
         (case map_of (props (deref s a)) ''then'' of
            None \<Rightarrow> False
          | Some (Data v) \<Rightarrow> typeof s v = ''function''
          | Some (Accessor g (Returns v)) \<Rightarrow> typeof s v = ''function''
          | Some (Accessor g (Throws e)) \<Rightarrow> False)
     | _ \<Rightarrow> False)"

text \<open>The values on which the detector runs user code: objects whose \<^verbatim>\<open>then\<close> is an
  accessor.\<close>

definition reads_getter :: "state \<Rightarrow> jsval \<Rightarrow> bool" where
  "reads_getter s x = (case x of
       Ref a \<Rightarrow> fn (deref s a) = None \<and>
         (case map_of (props (deref s a)) ''then'' of Some (Accessor g b) \<Rightarrow> True | _ \<Rightarrow> False)
     | _ \<Rightarrow> False)"

text \<open>
  A host before installation: the handle \<^verbatim>\<open>jasmine\<close> at address 0, its constructor
  \<^verbatim>\<open>Spec\<close> at 1, \<^verbatim>\<open>Spec.prototype\<close> at 2 with the host's \<^verbatim>\<open>runs\<close> (3) and
  \<^verbatim>\<open>waitsFor\<close> (4), and a running spec at 5. The test's functions: at 6 a step body
  that returns the deferred computation at 7 (whose \<^verbatim>\<open>then\<close> is at 8), at 9 a
  follow-up, at 10 a step body that returns \<^verbatim>\<open>42\<close>.
\<close>

definition host_heap :: "obj list" where
  "host_heap =
     [\<lparr>fn = None, props = [(''Spec'', Data (Ref 1))]\<rparr>,
      \<lparr>fn = Some (UserFn ''Spec'' (Returns Undefined)), props = [(''prototype'', Data (Ref 2))]\<rparr>,
      \<lparr>fn = None, props = [(''runs'', Data (Ref 3)), (''waitsFor'', Data (Ref 4))]\<rparr>,
      \<lparr>fn = Some HostRuns, props = []\<rparr>,
      \<lparr>fn = Some HostWaitsFor, props = []\<rparr>,
      \<lparr>fn = None, props = []\<rparr>,
      \<lparr>fn = Some (UserFn ''runFn'' (Returns (Ref 7))), props = []\<rparr>,
      \<lparr>fn = None, props = [(''then'', Data (Ref 8))]\<rparr>,
      \<lparr>fn = Some (ThenOf 0), props = []\<rparr>,
      \<lparr>fn = Some (UserFn ''expectFn'' (Returns Undefined)), props = []\<rparr>,
      \<lparr>fn = Some (UserFn ''syncFn'' (Returns (Num 42))), props = []\<rparr>]"

definition host_store :: state where
  "host_store = empty_state\<lparr>heap := host_heap\<rparr>"

text \<open>The same host after installation: the interceptor at 11 replaces \<^verbatim>\<open>runs\<close> in the
  prototype, and its \<^verbatim>\<open>toString\<close> is at 12.\<close>

definition installed_heap :: "obj list" where
  "installed_heap =
     [\<lparr>fn = None, props = [(''Spec'', Data (Ref 1))]\<rparr>,
      \<lparr>fn = Some (UserFn ''Spec'' (Returns Undefined)), props = [(''prototype'', Data (Ref 2))]\<rparr>,
      \<lparr>fn = None, props = [(''runs'', Data (Ref 11)), (''waitsFor'', Data (Ref 4))]\<rparr>,
      \<lparr>fn = Some HostRuns, props = []\<rparr>,
      \<lparr>fn = Some HostWaitsFor, props = []\<rparr>,
      \<lparr>fn = None, props = []\<rparr>,
      \<lparr>fn = Some (UserFn ''runFn'' (Returns (Ref 7))), props = []\<rparr>,
      \<lparr>fn = None, props = [(''then'', Data (Ref 8))]\<rparr>,
      \<lparr>fn = Some (ThenOf 0), props = []\<rparr>,
      \<lparr>fn = Some (UserFn ''expectFn'' (Returns Undefined)), props = []\<rparr>,
      \<lparr>fn = Some (UserFn ''syncFn'' (Returns (Num 42))), props = []\<rparr>,
      \<lparr>fn = Some (Interceptor (Ref 3) (Ref 4)), props = [(''toString'', Data (Ref 12))]\<rparr>,
      \<lparr>fn = Some (ToStringOf (Ref 3)), props = []\<rparr>]"

definition installed_store :: state where
  "installed_store = empty_state\<lparr>heap := installed_heap, duckPunchedAlready := True\<rparr>"

text \<open>A value that is no reference: \<^verbatim>\<open>undefined\<close>, \<^verbatim>\<open>null\<close>, a boolean, a number or a
  string.\<close>

definition primitive :: "jsval \<Rightarrow> bool" where
  "primitive v = (case v of Ref a \<Rightarrow> False | _ \<Rightarrow> True)"

text \<open>The timeout the host's poll uses when \<^verbatim>\<open>waitsFor\<close> is given \<open>v\<close> as its
  timeout argument.\<close>

definition poll_timeout :: "jsval \<Rightarrow> int" where
  "poll_timeout v = (case v of Num t \<Rightarrow> if t \<noteq> 0 then t else defaultTimeoutInterval
                      | _ \<Rightarrow> defaultTimeoutInterval)"

text \<open>A store is closed when every reference kept in a property points into it, as
  every reference of a running program does.\<close>

definition valid_ref :: "state \<Rightarrow> jsval \<Rightarrow> bool" where
  "valid_ref s v = (case v of Ref a \<Rightarrow> a < length (heap s) | _ \<Rightarrow> True)"

definition slot_value :: "slot \<Rightarrow> jsval" where
  "slot_value sl = (case sl of Data v \<Rightarrow> v | Accessor g (Returns v) \<Rightarrow> v | Accessor g (Throws e) \<Rightarrow> e)"

definition closed_store :: "state \<Rightarrow> bool" where
  "closed_store s =
     list_all (\<lambda>ob. list_all (\<lambda>kv. valid_ref s (slot_value (snd kv))) (props ob)) (heap s)"

text \<open>
  A whole test on the host of \<open>host_store\<close>: the patch is installed on the handle; the
  spec at 5 calls its \<^verbatim>\<open>runs\<close>, which is the prototype's, with the body at 6 and the
  follow-up at 9; the runner executes what was registered, and the deferred computation
  that the body returned is fulfilled with \<open>v\<close> during the first tick of the poll.
\<close>

definition follow_up_run :: "jsval \<Rightarrow> unit result" where
  "follow_up_run v =
     bind_c (jasmineAsPromised (Ref 0) (host_store\<lparr>world := [Settle 0 (Fulfilled v)]\<rparr>)) (\<lambda>r s1.
     bind_c (get_prop (Ref 2) ''runs'' s1) (\<lambda>f s2.
     bind_c (invoke 2 f (Ref 5) [Ref 6, Ref 9] s2) (\<lambda>r s3.
       run_queue 5 s3)))"

text \<open>The latches of one state against those of a later one: every cell is still
  there, and a cell that was true is true.\<close>

definition latches_kept :: "bool list \<Rightarrow> bool list \<Rightarrow> bool" where
  "latches_kept xs ys =
     (length xs \<le> length ys \<and> list_all2 (\<lambda>a b. a \<longrightarrow> b) xs (take (length xs) ys))"

definition kept :: "state \<Rightarrow> state \<Rightarrow> bool" where
  "kept s s' = latches_kept (results s) (results s')"

text \<open>The modules of a module tree, and the modules that discovery looks for: an id that
  ends with the suffix, and exports that are truthy.\<close>

fun modules_of :: "module \<Rightarrow> module list"
  and modules_of_list :: "module list \<Rightarrow> module list" where
  "modules_of (Module mid exports children) = Module mid exports children # modules_of_list children"
| "modules_of_list [] = []"
| "modules_of_list (c # cs) = modules_of c @ modules_of_list cs"

definition ends_with :: "string \<Rightarrow> string \<Rightarrow> bool" where
  "ends_with suf str = (length suf \<le> length str \<and> drop (length str - length suf) str = suf)"

definition is_target :: "string \<Rightarrow> module \<Rightarrow> bool" where
  "is_target suf m = (case m of Module mid exports children \<Rightarrow> ends_with suf mid \<and> truthy exports)"

text \<open>Environments without a running Jasmine. Node with a module tree that holds no
  Jasmine module, and Node without a main module. An emulation of Node in which the
  global \<^verbatim>\<open>jasmine\<close> is declared and \<^verbatim>\<open>undefined\<close>, one in which no such global is
  declared, and one in which it is \<^verbatim>\<open>null\<close>.\<close>

definition node_without_jasmine :: env where
  "node_without_jasmine =
     \<lparr>real_node = True,
      main_module = Some (Module ''/app/spec/runner.js'' (Ref 0)
         [Module ''/app/node_modules/q/q.js'' (Ref 1) [], Module ''/app/spec/helper.js'' Null []]),
      sep = ''/'', jasmine_global = None\<rparr>"

definition node_without_main :: env where
  "node_without_main =
     \<lparr>real_node = True, main_module = None, sep = ''/'', jasmine_global = None\<rparr>"

definition emulation_without_jasmine :: env where
  "emulation_without_jasmine =
     \<lparr>real_node = False, main_module = None, sep = ''/'', jasmine_global = Some Undefined\<rparr>"

definition emulation_without_global :: env where
  "emulation_without_global =
     \<lparr>real_node = False, main_module = None, sep = ''/'', jasmine_global = None\<rparr>"

definition emulation_with_null_global :: env where
  "emulation_with_null_global =
     \<lparr>real_node = False, main_module = None, sep = ''/'', jasmine_global = Some Null\<rparr>"

text \<open>The values on which the detector throws: objects whose \<^verbatim>\<open>then\<close> is a getter
  that throws. On every other value it returns, after the events of \<open>getter_trace\<close>:
  the run of the getter, when \<^verbatim>\<open>then\<close> is one.\<close>

definition then_throws :: "state \<Rightarrow> jsval \<Rightarrow> bool" where
  "then_throws s x = (case x of
       Ref a \<Rightarrow> fn (deref s a) = None \<and>
         (case map_of (props (deref s a)) ''then'' of
            Some (Accessor g (Throws e)) \<Rightarrow> True
          | _ \<Rightarrow> False)
     | _ \<Rightarrow> False)"

definition getter_trace :: "state \<Rightarrow> jsval \<Rightarrow> event list" where
  "getter_trace s x = (case x of
       Ref a \<Rightarrow> (case fn (deref s a) of
           Some c \<Rightarrow> []
         | None \<Rightarrow> (case map_of (props (deref s a)) ''then'' of
               Some (Accessor g body) \<Rightarrow> [Called g (Ref a) []]
             | _ \<Rightarrow> []))
     | _ \<Rightarrow> [])"

text \<open>
  The installed host with two more steps of a test: at 13 an object whose \<^verbatim>\<open>then\<close> is a
  getter that throws, at 14 a step body that returns it; at 15 an object whose \<^verbatim>\<open>then\<close>
  is a getter that returns a string, at 16 a step body that returns it.
\<close>

definition getter_heap :: "obj list" where
  "getter_heap = installed_heap @
     [\<lparr>fn = None, props = [(''then'', Accessor ''get then'' (Throws (Str ''boom'')))]\<rparr>,
      \<lparr>fn = Some (UserFn ''throwingThenFn'' (Returns (Ref 13))), props = []\<rparr>,
      \<lparr>fn = None, props = [(''then'', Accessor ''get then'' (Returns (Str ''later'')))]\<rparr>,
      \<lparr>fn = Some (UserFn ''stringThenFn'' (Returns (Ref 15))), props = []\<rparr>]"

definition getter_store :: state where
  "getter_store = empty_state\<lparr>heap := getter_heap, duckPunchedAlready := True\<rparr>"

text \<open>The spec at 5 calls the installed interceptor with the body at 14 and a timeout
  of 30 milliseconds, and the runner executes what was registered.\<close>

definition throwing_getter_run :: "unit result" where
  "throwing_getter_run =
     bind_c (invoke 2 (Ref 11) (Ref 5) [Ref 14, Undefined, Num 30] getter_store) (\<lambda>r s1.
       run_queue 8 s1)"

section \<open>Basic facts\<close>

lemma bind_c_simps [simp]:
  "bind_c (Normal v, s) f = f v s"
  "bind_c (Throw e, s) f = (Throw e, s)"
  "bind_c (OutOfFuel, s) f = (OutOfFuel, s)"
  by (simp_all add: bind_c_def)

lemma isDefined_iff [simp]: "isDefined s v \<longleftrightarrow> v \<noteq> Undefined"
  by (cases v) (simp_all add: isDefined_def split: option.splits)

lemma deref_upd [simp]:
  "deref (s\<lparr>duckPunchedAlready := b\<rparr>) = deref s"
  "deref (s\<lparr>results := rs\<rparr>) = deref s"
  "deref (s\<lparr>queue := q\<rparr>) = deref s"
  "deref (s\<lparr>regs := rg\<rparr>) = deref s"
  "deref (s\<lparr>settled := st\<rparr>) = deref s"
  "deref (s\<lparr>world := w\<rparr>) = deref s"
  "deref (s\<lparr>trace := t\<rparr>) = deref s"
  by (simp_all add: deref_def fun_eq_iff)

lemma deref_append [simp]:
  "deref (s\<lparr>heap := heap s @ obs\<rparr>) a =
     (if a < length (heap s) then deref s a
      else if a < length (heap s) + length obs then obs ! (a - length (heap s))
      else \<lparr>fn = None, props = []\<rparr>)"
  by (auto simp: deref_def nth_append)

lemma fn_deref_in: "fn (deref s a) = Some c \<Longrightarrow> a < length (heap s)"
  by (simp add: deref_def split: if_splits)

lemma props_deref_in: "map_of (props (deref s a)) p = Some x \<Longrightarrow> a < length (heap s)"
  by (simp add: deref_def split: if_splits)

lemma typeof_heap: "heap s' = heap s \<Longrightarrow> typeof s' v = typeof s v"
  by (cases v) (simp_all add: deref_def)

lemma typeof_upd [simp]:
  "typeof (s\<lparr>duckPunchedAlready := b\<rparr>) v = typeof s v"
  "typeof (s\<lparr>results := rs\<rparr>) v = typeof s v"
  "typeof (s\<lparr>queue := q\<rparr>) v = typeof s v"
  "typeof (s\<lparr>regs := rg\<rparr>) v = typeof s v"
  "typeof (s\<lparr>settled := st\<rparr>) v = typeof s v"
  "typeof (s\<lparr>world := w\<rparr>) v = typeof s v"
  "typeof (s\<lparr>trace := t\<rparr>) v = typeof s v"
  by (rule typeof_heap, simp)+

lemma typeof_function:
  "typeof s v = ''function'' \<longleftrightarrow> (\<exists>a c. v = Ref a \<and> fn (deref s a) = Some c)"
  by (cases v) (auto split: option.splits)

lemma arg_simps [simp]:
  "arg [] n = Undefined"
  "arg (x # xs) 0 = x"
  "arg (x # xs) (Suc n) = arg xs n"
  "arg (x # y # zs) 2 = arg zs 0"
  by (simp_all add: arg_def)

declare invoke.simps(2) [simp del]

lemma invoke_Suc:
  "invoke (Suc n) (Ref a) this args s = (case fn (deref s a) of
       None \<Rightarrow> (Throw (TypeError ''not a function''), s)
     | Some (UserFn name body) \<Rightarrow> run_user name body this args s
     | Some HostRuns \<Rightarrow> host_runs this args s
     | Some HostWaitsFor \<Rightarrow> host_waitsFor this args s
     | Some (ThenOf p) \<Rightarrow> then_register p args s
     | Some (Interceptor r w) \<Rightarrow> interceptor (invoke n) r w this args s
     | Some (OnReleaseWait k) \<Rightarrow> onReleaseWait k s
     | Some (Adapter runFn onRW) \<Rightarrow> adapter (invoke n) runFn onRW s
     | Some (Latch k) \<Rightarrow> latch k s
     | Some (ToStringOf r) \<Rightarrow> toStringOf (invoke n) r s)"
  by (simp add: invoke.simps(2) dispatch_def)

lemma alloc_eq: "alloc ob s = (Ref (length (heap s)), s\<lparr>heap := heap s @ [ob]\<rparr>)"
  by (simp add: alloc_def)

lemma isPromise_data:
  "fn (deref s d) = None \<Longrightarrow> map_of (props (deref s d)) ''then'' = Some (Data t) \<Longrightarrow>
   isPromise (Ref d) s = (Normal (typeof s t = ''function''), s)"
  by (simp add: isPromise_def)

lemma shape_trace [simp]:
  "is_deferred_shape (s\<lparr>trace := t\<rparr>) v = is_deferred_shape s v"
  "reads_getter (s\<lparr>trace := t\<rparr>) v = reads_getter s v"
  by (auto simp: is_deferred_shape_def reads_getter_def
        split: jsval.splits option.splits slot.splits ubody.splits)

lemma shape_heap:
  assumes "heap s' = heap s"
  shows "is_deferred_shape s' v = is_deferred_shape s v"
    and "reads_getter s' v = reads_getter s v"
proof -
  from assms have "deref s' = deref s" by (simp add: deref_def fun_eq_iff)
  moreover from assms have "\<And>x. typeof s' x = typeof s x" by (rule typeof_heap)
  ultimately show "is_deferred_shape s' v = is_deferred_shape s v"
    and "reads_getter s' v = reads_getter s v"
    by (auto simp: is_deferred_shape_def reads_getter_def
          split: jsval.splits option.splits slot.splits ubody.splits)
qed

subsection \<open>Closed stores: allocation does not change what is already there\<close>

lemma closed_slot:
  assumes "closed_store s" and "map_of (props (deref s a)) p = Some sl"
  shows "valid_ref s (slot_value sl)"
proof -
  from assms(2) have a: "a < length (heap s)" by (rule props_deref_in)
  with assms(2) have "(p, sl) \<in> set (props (heap s ! a))"
    by (auto simp: deref_def dest: map_of_SomeD)
  moreover from a have "heap s ! a \<in> set (heap s)" by simp
  ultimately show ?thesis using assms(1)
    by (fastforce simp: closed_store_def list_all_iff)
qed

lemma typeof_append:
  "valid_ref s v \<Longrightarrow> typeof (s\<lparr>heap := heap s @ obs\<rparr>) v = typeof s v"
  by (cases v) (simp_all add: valid_ref_def)

lemma typeof_slot_append:
  assumes "closed_store s" and "map_of (props (deref s a)) p = Some sl"
  shows "typeof (s\<lparr>heap := heap s @ obs\<rparr>) (slot_value sl) = typeof s (slot_value sl)"
  using closed_slot[OF assms] by (rule typeof_append)

lemma shape_append:
  assumes "closed_store s" and "valid_ref s v"
  shows "is_deferred_shape (s\<lparr>heap := heap s @ obs\<rparr>) v = is_deferred_shape s v"
proof (cases v)
  case (Ref a)
  with assms(2) have a: "a < length (heap s)" by (simp add: valid_ref_def)
  show ?thesis
  proof (cases "map_of (props (deref s a)) ''then''")
    case None
    with Ref a show ?thesis by (simp add: is_deferred_shape_def)
  next
    case (Some sl)
    from typeof_slot_append[OF assms(1) Some, of obs] Some Ref a show ?thesis
      by (cases sl) (auto simp: is_deferred_shape_def slot_value_def split: ubody.splits)
  qed
qed (simp_all add: is_deferred_shape_def)

subsection \<open>Where the detector returns false\<close>

lemma isPromise_returns_false:
  "\<not> is_deferred_shape s v \<Longrightarrow> \<not> then_throws s v \<Longrightarrow>
   isPromise v s = (Normal False, s\<lparr>trace := trace s @ getter_trace s v\<rparr>)"
  by (cases v)
     (auto simp: isPromise_def is_deferred_shape_def then_throws_def getter_trace_def
           split: option.splits slot.splits ubody.splits)

lemma then_view_heap:
  assumes "heap s' = heap s"
  shows "then_throws s' v = then_throws s v" and "getter_trace s' v = getter_trace s v"
proof -
  from assms have d: "deref s' = deref s" by (simp add: deref_def fun_eq_iff)
  show "then_throws s' v = then_throws s v"
    unfolding then_throws_def d by (rule refl)
  show "getter_trace s' v = getter_trace s v"
    unfolding getter_trace_def d by (rule refl)
qed

lemma then_view_trace [simp]:
  "then_throws (s\<lparr>trace := t\<rparr>) v = then_throws s v"
  "getter_trace (s\<lparr>trace := t\<rparr>) v = getter_trace s v"
  by (rule then_view_heap, simp)+

lemma then_view_append:
  assumes "valid_ref s v"
  shows "then_throws (s\<lparr>heap := heap s @ obs\<rparr>) v = then_throws s v"
    and "getter_trace (s\<lparr>heap := heap s @ obs\<rparr>) v = getter_trace s v"
proof -
  show "then_throws (s\<lparr>heap := heap s @ obs\<rparr>) v = then_throws s v"
    using assms by (cases v) (simp_all add: then_throws_def valid_ref_def)
  show "getter_trace (s\<lparr>heap := heap s @ obs\<rparr>) v = getter_trace s v"
    using assms by (cases v) (auto simp: getter_trace_def valid_ref_def split: option.splits)
qed

lemma returns_false_after_alloc:
  assumes "closed_store s" and "valid_ref s v" and "heap s' = heap s @ obs"
    and "\<not> is_deferred_shape s v" and "\<not> then_throws s v"
  shows "\<not> is_deferred_shape s' v" and "\<not> then_throws s' v"
    and "getter_trace s' v = getter_trace s v"
proof -
  have h: "heap s' = heap (s\<lparr>heap := heap s @ obs\<rparr>)" using assms(3) by simp
  show "\<not> is_deferred_shape s' v"
    using shape_heap(1)[OF h, of v] shape_append[OF assms(1,2), of obs] assms(4) by simp
  show "\<not> then_throws s' v"
    using then_view_heap(1)[OF h, of v] then_view_append(1)[OF assms(2), of obs] assms(5) by simp
  show "getter_trace s' v = getter_trace s v"
    using then_view_heap(2)[OF h, of v] then_view_append(2)[OF assms(2), of obs] by simp
qed

section \<open>What the closures do under the host's primitives\<close>

lemma interceptor_host:
  assumes "fn (deref s r) = Some HostRuns" "fn (deref s w) = Some HostWaitsFor"
    and "primitive (arg args 2)"
  shows "interceptor (invoke (Suc n)) (Ref r) (Ref w) this args s =
     (Normal Undefined,
      s\<lparr>heap := heap s @ [\<lparr>fn = Some (OnReleaseWait (length (results s))), props = []\<rparr>,
                          \<lparr>fn = Some (Adapter (arg args 0) (Ref (length (heap s)))), props = []\<rparr>,
                          \<lparr>fn = Some (Latch (length (results s))), props = []\<rparr>],
        results := results s @ [False],
        queue := queue s @ [RunBlock this (Ref (Suc (length (heap s)))),
                 WaitsForBlock this (Ref (Suc (Suc (length (heap s))))) (poll_timeout (arg args 2))]
               @ (if arg args 1 \<noteq> Undefined then [RunBlock this (arg args 1)] else []),
        trace := trace s @ [RunsCalled this [Ref (Suc (length (heap s)))],
                 WaitsForCalled this [Ref (Suc (Suc (length (heap s)))), arg args 2]]
               @ (if arg args 1 \<noteq> Undefined then [RunsCalled this [arg args 1]] else [])\<rparr>)"
  using assms
  by (cases "arg args 2")
    (simp_all add: interceptor_def alloc_eq Let_def invoke_Suc host_runs_def host_waitsFor_def
      deref_def nth_append split_beta primitive_def poll_timeout_def split: if_splits option.splits)

lemma interceptor_host_trace:
  assumes "fn (deref s r) = Some HostRuns" "fn (deref s w) = Some HostWaitsFor"
  shows "\<exists>s'. interceptor (invoke (Suc n)) (Ref r) (Ref w) this args s = (Normal Undefined, s')
      \<and> trace s' = trace s @ [RunsCalled this [Ref (Suc (length (heap s)))],
            WaitsForCalled this [Ref (Suc (Suc (length (heap s)))), arg args 2]]
          @ (if arg args 1 \<noteq> Undefined then [RunsCalled this [arg args 1]] else [])"
  using assms
  by (simp add: interceptor_def alloc_eq Let_def invoke_Suc host_runs_def host_waitsFor_def
      deref_def nth_append split_beta split: if_splits)

lemma adapter_non_deferred:
  assumes "fn (deref s f) = Some (UserFn name (Returns v))"
    and "\<not> is_deferred_shape s v" and "\<not> then_throws s v"
    and "fn (deref s c) = Some (OnReleaseWait k)"
  shows "adapter (invoke (Suc n)) (Ref f) (Ref c) s =
     (Normal Undefined,
      s\<lparr>results := (results s)[k := True],
        trace := trace s @ [Called name Undefined []] @ getter_trace s v\<rparr>)"
  using assms
  by (simp add: adapter_def invoke_Suc isPromise_returns_false onReleaseWait_def)


text \<open>A \<^verbatim>\<open>then\<close> written by the test is called once as well, with the same function
  in both places.\<close>

lemma adapter_user_then:
  assumes "fn (deref s f) = Some (UserFn name (Returns (Ref d)))"
    and "fn (deref s d) = None"
    and "map_of (props (deref s d)) ''then'' = Some (Data (Ref t))"
    and "fn (deref s t) = Some (UserFn tname (Returns x))"
  shows "adapter (invoke (Suc n)) (Ref f) onRW s =
     (Normal Undefined,
      s\<lparr>trace := trace s @ [Called name Undefined [], Called tname (Ref d) [onRW, onRW]]\<rparr>)"
  using assms
  by (simp add: adapter_def invoke_Suc isPromise_data)

lemma run_adapter_block:
  assumes "fn (deref s a) = Some (Adapter runFn onRW)"
    and "adapter (invoke (Suc n)) runFn onRW s = (Normal v, s')"
  shows "run_block (Suc (Suc n)) (RunBlock this (Ref a)) s = (Normal True, s')"
  using assms by (simp add: run_block_def invoke_Suc)

lemma poll_released:
  assumes "fn (deref s l) = Some (Latch k)" and "k < length (results s)" and "results s ! k"
  shows "run_block (Suc n) (WaitsForBlock this (Ref l) timeout) s =
           (Normal True, s\<lparr>trace := trace s @ [Polled True]\<rparr>)"
  using assms by (simp add: run_block_def invoke_Suc latch_def)

section \<open>The detector\<close>

text \<open>
  C3. The detector returns true exactly for a non-null value that \<^verbatim>\<open>typeof\<close> calls
  an object, with a property \<^verbatim>\<open>then\<close> whose value is callable. It returns true for
  \<^verbatim>\<open>{ then: function(a,b){} }\<close> and false for \<^verbatim>\<open>null\<close>, \<^verbatim>\<open>undefined\<close>, \<^verbatim>\<open>42\<close>, \<^verbatim>\<open>"string"\<close>, \<^verbatim>\<open>{}\<close> and
  \<^verbatim>\<open>{ then: "not a function" }\<close>.
\<close>

theorem isPromise_characterised:
  "(fst (isPromise x s) = Normal True \<longleftrightarrow> is_deferred_shape s x)
   \<and> isPromise (Ref 0) detector_store = (Normal True, detector_store)
   \<and> isPromise Null detector_store = (Normal False, detector_store)
   \<and> isPromise Undefined detector_store = (Normal False, detector_store)
   \<and> isPromise (Num 42) detector_store = (Normal False, detector_store)
   \<and> isPromise (Str ''string'') detector_store = (Normal False, detector_store)
   \<and> isPromise (Ref 2) detector_store = (Normal False, detector_store)
   \<and> isPromise (Ref 3) detector_store = (Normal False, detector_store)"
proof -
  have general: "fst (isPromise x s) = Normal True \<longleftrightarrow> is_deferred_shape s x"
    by (cases x)
       (auto simp: isPromise_def is_deferred_shape_def split: option.splits slot.splits ubody.splits)
  have examples:
    "isPromise (Ref 0) detector_store = (Normal True, detector_store)"
    "isPromise Null detector_store = (Normal False, detector_store)"
    "isPromise Undefined detector_store = (Normal False, detector_store)"
    "isPromise (Num 42) detector_store = (Normal False, detector_store)"
    "isPromise (Str ''string'') detector_store = (Normal False, detector_store)"
    "isPromise (Ref 2) detector_store = (Normal False, detector_store)"
    "isPromise (Ref 3) detector_store = (Normal False, detector_store)"
    by (simp_all add: isPromise_def detector_store_def empty_state_def deref_def)
  from general examples show ?thesis by blast
qed

text \<open>
  C8, as stated, fails: on an object whose \<^verbatim>\<open>then\<close> is a getter the detector runs the
  getter. Here the getter throws, and the detector throws with it, after the getter's
  effect.
\<close>

theorem isPromise_getter_throws:
  "isPromise (Ref 4) detector_store =
     (Throw (Thrown (Str ''boom'')), detector_store\<lparr>trace := [Called ''get then'' (Ref 4) []]\<rparr>)"
  by (simp add: isPromise_def detector_store_def empty_state_def deref_def)

text \<open>
  C8, amended. On every value that is not an object with an accessor \<^verbatim>\<open>then\<close>
  (so on \<^verbatim>\<open>null\<close>, \<^verbatim>\<open>undefined\<close>, every primitive, every function and every object whose
  \<^verbatim>\<open>then\<close> is absent or a data property) the detector returns a boolean, throws
  nothing and leaves the state as it was.
\<close>

theorem isPromise_total_pure:
  "\<not> reads_getter s x \<Longrightarrow> \<exists>b. isPromise x s = (Normal b, s)"
  by (cases x)
     (auto simp: isPromise_def reads_getter_def split: option.splits slot.splits)

theorem isPromise_total_pure_witness:
  "\<not> reads_getter detector_store (Ref 0)
   \<and> (\<exists>b. isPromise (Ref 0) detector_store = (Normal b, detector_store))"
  using isPromise_total_pure [of detector_store "Ref 0"]
  by (simp add: reads_getter_def detector_store_def empty_state_def deref_def)

section \<open>The interceptor\<close>

text \<open>
  C6. The interceptor hands its third argument to the host's \<^verbatim>\<open>waitsFor\<close> as it is:
  the call it makes is \<^verbatim>\<open>waitsFor(latch, timeOut)\<close> and nothing else of the interceptor
  looks at \<open>timeOut\<close>. When the argument is absent it is \<^verbatim>\<open>undefined\<close>, the host finds
  no number among its arguments and polls with its default timeout; a number other than
  zero is the timeout of the poll.
\<close>

theorem timeout_forwarded_unchanged:
  assumes "fn (deref s i) = Some (Interceptor (Ref r) (Ref w))"
    and "fn (deref s r) = Some HostRuns" and "fn (deref s w) = Some HostWaitsFor"
  shows "\<exists>s'. invoke (Suc (Suc n)) (Ref i) this args s = (Normal Undefined, s')
      \<and> trace s' = trace s @ [RunsCalled this [Ref (Suc (length (heap s)))],
            WaitsForCalled this [Ref (Suc (Suc (length (heap s)))), arg args 2]]
          @ (if arg args 1 \<noteq> Undefined then [RunsCalled this [arg args 1]] else [])
      \<and> (primitive (arg args 2) \<longrightarrow>
           queue s' = queue s @ [RunBlock this (Ref (Suc (length (heap s)))),
              WaitsForBlock this (Ref (Suc (Suc (length (heap s))))) (poll_timeout (arg args 2))]
            @ (if arg args 1 \<noteq> Undefined then [RunBlock this (arg args 1)] else []))
      \<and> (length args < 3 \<longrightarrow> arg args 2 = Undefined)
      \<and> poll_timeout Undefined = defaultTimeoutInterval
      \<and> (\<forall>t. t \<noteq> 0 \<longrightarrow> poll_timeout (Num t) = t)"
proof (cases "primitive (arg args 2)")
  case True
  from interceptor_host[OF assms(2,3) True, of n this] assms(1) show ?thesis
    by (simp add: invoke_Suc poll_timeout_def arg_def)
next
  case False
  from interceptor_host_trace[OF assms(2,3), of n this args] assms(1) False show ?thesis
    by (auto simp: invoke_Suc poll_timeout_def arg_def)
qed

text \<open>The installed interceptor called with a timeout of 250.\<close>

theorem timeout_forwarded_unchanged_witness:
  "fn (deref installed_store 11) = Some (Interceptor (Ref 3) (Ref 4))
   \<and> fn (deref installed_store 3) = Some HostRuns
   \<and> fn (deref installed_store 4) = Some HostWaitsFor
   \<and> (\<exists>s'. invoke 2 (Ref 11) (Ref 5) [Ref 6, Ref 9, Num 250] installed_store = (Normal Undefined, s')
        \<and> trace s' = [RunsCalled (Ref 5) [Ref 14], WaitsForCalled (Ref 5) [Ref 15, Num 250],
                       RunsCalled (Ref 5) [Ref 9]]
        \<and> queue s' = [RunBlock (Ref 5) (Ref 14), WaitsForBlock (Ref 5) (Ref 15) 250,
                       RunBlock (Ref 5) (Ref 9)])"
proof -
  have h: "fn (deref installed_store 11) = Some (Interceptor (Ref 3) (Ref 4))"
     "fn (deref installed_store 3) = Some HostRuns"
     "fn (deref installed_store 4) = Some HostWaitsFor"
    by (simp_all add: installed_store_def installed_heap_def empty_state_def deref_def)
  have l: "length (heap installed_store) = 13" "trace installed_store = []" "queue installed_store = []"
    by (simp_all add: installed_store_def installed_heap_def empty_state_def)
  from timeout_forwarded_unchanged[OF h, of 0 "Ref 5" "[Ref 6, Ref 9, Num 250]"] h l
  show ?thesis
    by (simp add: primitive_def poll_timeout_def eval_nat_numeral)
qed

text \<open>
  C5, as stated, fails on a value that is no deferred computation and whose \<^verbatim>\<open>then\<close>
  is a getter that throws: \<^verbatim>\<open>isPromise(retVal)\<close> throws inside the adapter, so
  \<^verbatim>\<open>onReleaseWait()\<close> is not reached. The step fails, the latch stays false, every
  check of the poll is false and the poll times out.
\<close>

theorem non_deferred_getter_times_out:
  "\<not> is_deferred_shape getter_store (Ref 13)
   \<and> fn (deref getter_store 14) = Some (UserFn ''throwingThenFn'' (Returns (Ref 13)))
   \<and> fst throwing_getter_run = Normal ()
   \<and> results (snd throwing_getter_run) = [False]
   \<and> trace (snd throwing_getter_run) =
       [RunsCalled (Ref 5) [Ref 18], WaitsForCalled (Ref 5) [Ref 19, Num 30],
        Called ''throwingThenFn'' Undefined [], Called ''get then'' (Ref 13) [],
        SpecFailed (Thrown (Str ''boom'')),
        Polled False, Polled False, Polled False, Polled False, TimedOut 30]"
  by (simp add: throwing_getter_run_def getter_store_def getter_heap_def installed_heap_def
        empty_state_def is_deferred_shape_def alloc_eq deref_def eval_nat_numeral invoke_Suc
        interceptor_def host_runs_def host_waitsFor_def Let_def run_block_def adapter_def
        isPromise_def latch_def pass_time_def flush_def TIMEOUT_INCREMENT_def)

text \<open>
  C5, amended. A step whose body returns a value that is no deferred computation and on
  which the detector does not throw, that is every such value but an object whose
  \<^verbatim>\<open>then\<close> is a getter that throws: the adapter sets the latch itself, while its step
  runs. The poll is registered by then, with the latch still false, and has not checked
  its condition yet; when the runner comes to it the latch is true, so its condition is
  true at the first check: it completes without letting a tick pass and without a
  timeout.
\<close>

theorem non_deferred_released_at_once:
  assumes "fn (deref s i) = Some (Interceptor (Ref r) (Ref w))"
    and "fn (deref s r) = Some HostRuns" and "fn (deref s w) = Some HostWaitsFor"
    and "fn (deref s f) = Some (UserFn name (Returns v))"
    and "\<not> is_deferred_shape s v" and "\<not> then_throws s v"
    and "closed_store s" and "valid_ref s v"
    and "primitive timeOut"
  shows "\<exists>s1 s2 rest.
       invoke (Suc (Suc n)) (Ref i) this [Ref f, expectFn, timeOut] s = (Normal Undefined, s1)
     \<and> queue s1 = queue s @ RunBlock this (Ref (Suc (length (heap s))))
                 # WaitsForBlock this (Ref (Suc (Suc (length (heap s))))) (poll_timeout timeOut) # rest
     \<and> results s1 = results s @ [False]
     \<and> run_block (Suc (Suc m)) (RunBlock this (Ref (Suc (length (heap s))))) (s1\<lparr>queue := []\<rparr>)
         = (Normal True, s2)
     \<and> results s2 = results s @ [True]
     \<and> trace s2 = trace s1 @ [Called name Undefined []] @ getter_trace s v
     \<and> queue s2 = []
     \<and> run_block (Suc k) (WaitsForBlock this (Ref (Suc (Suc (length (heap s))))) (poll_timeout timeOut)) s2
         = (Normal True, s2\<lparr>trace := trace s2 @ [Polled True]\<rparr>)"
proof -
  let ?h = "length (heap s)"
  let ?objs = "[\<lparr>fn = Some (OnReleaseWait (length (results s))), props = []\<rparr>,
                \<lparr>fn = Some (Adapter (Ref f) (Ref ?h)), props = []\<rparr>,
                \<lparr>fn = Some (Latch (length (results s))), props = []\<rparr>]"
  let ?rest = "if expectFn \<noteq> Undefined then [RunBlock this expectFn] else []"
  let ?s1 = "s\<lparr>heap := heap s @ ?objs, results := results s @ [False],
        queue := queue s @ [RunBlock this (Ref (Suc ?h)),
                  WaitsForBlock this (Ref (Suc (Suc ?h))) (poll_timeout timeOut)] @ ?rest,
        trace := trace s @ [RunsCalled this [Ref (Suc ?h)],
                 WaitsForCalled this [Ref (Suc (Suc ?h)), timeOut]]
               @ (if expectFn \<noteq> Undefined then [RunsCalled this [expectFn]] else [])\<rparr>"
  let ?q1 = "?s1\<lparr>queue := []\<rparr>"
  let ?s2 = "?q1\<lparr>results := results s @ [True],
                 trace := trace ?s1 @ [Called name Undefined []] @ getter_trace s v\<rparr>"
  have call: "invoke (Suc (Suc n)) (Ref i) this [Ref f, expectFn, timeOut] s = (Normal Undefined, ?s1)"
    using interceptor_host[OF assms(2,3), of "[Ref f, expectFn, timeOut]" n this] assms(1,9)
    by (simp add: invoke_Suc)
  have fin: "f < ?h" using assms(4) by (rule fn_deref_in)
  have heap1: "heap ?q1 = heap s @ ?objs" by simp
  have nd: "\<not> is_deferred_shape ?q1 v" "\<not> then_throws ?q1 v"
    and gt: "getter_trace ?q1 v = getter_trace s v"
    using returns_false_after_alloc[OF assms(7,8) heap1 assms(5,6)] by blast+
  have f1: "fn (deref ?q1 f) = Some (UserFn name (Returns v))"
    using assms(4) fin by simp
  have o1: "fn (deref ?q1 ?h) = Some (OnReleaseWait (length (results s)))" by simp
  have ad: "adapter (invoke (Suc m)) (Ref f) (Ref ?h) ?q1 = (Normal Undefined, ?s2)"
    using adapter_non_deferred[OF f1 nd o1, of m] gt by simp
  have a1: "fn (deref ?q1 (Suc ?h)) = Some (Adapter (Ref f) (Ref ?h))" by simp
  have blk: "run_block (Suc (Suc m)) (RunBlock this (Ref (Suc ?h))) ?q1 = (Normal True, ?s2)"
    by (rule run_adapter_block[OF a1 ad])
  have l2: "fn (deref ?s2 (Suc (Suc ?h))) = Some (Latch (length (results s)))" by simp
  have poll: "run_block (Suc k) (WaitsForBlock this (Ref (Suc (Suc ?h))) (poll_timeout timeOut)) ?s2
         = (Normal True, ?s2\<lparr>trace := trace ?s2 @ [Polled True]\<rparr>)"
    by (rule poll_released[OF l2]) simp_all
  show ?thesis
    apply (rule exI[of _ ?s1], rule exI[of _ ?s2], rule exI[of _ ?rest])
    apply (intro conjI)
    apply (rule call)
    apply simp
    apply simp
    apply (rule blk)
    apply simp
    apply simp
    apply simp
    apply (rule poll)
    done
qed

text \<open>The installed interceptor called with the body at address 16, which returns the
  object at 15: its \<^verbatim>\<open>then\<close> is a getter that returns a string, and the detector runs
  that getter before it answers false.\<close>

theorem non_deferred_released_at_once_witness:
  "fn (deref getter_store 11) = Some (Interceptor (Ref 3) (Ref 4))
   \<and> fn (deref getter_store 3) = Some HostRuns
   \<and> fn (deref getter_store 4) = Some HostWaitsFor
   \<and> fn (deref getter_store 16) = Some (UserFn ''stringThenFn'' (Returns (Ref 15)))
   \<and> \<not> is_deferred_shape getter_store (Ref 15) \<and> \<not> then_throws getter_store (Ref 15)
   \<and> closed_store getter_store \<and> valid_ref getter_store (Ref 15)
   \<and> primitive Undefined
   \<and> (\<exists>s1 s2 rest.
         invoke 2 (Ref 11) (Ref 5) [Ref 16, Undefined, Undefined] getter_store = (Normal Undefined, s1)
       \<and> queue s1 = RunBlock (Ref 5) (Ref 18) # WaitsForBlock (Ref 5) (Ref 19) 5000 # rest
       \<and> results s1 = [False]
       \<and> run_block 2 (RunBlock (Ref 5) (Ref 18)) (s1\<lparr>queue := []\<rparr>) = (Normal True, s2)
       \<and> results s2 = [True]
       \<and> trace s2 = trace s1 @ [Called ''stringThenFn'' Undefined [], Called ''get then'' (Ref 15) []]
       \<and> queue s2 = []
       \<and> run_block 1 (WaitsForBlock (Ref 5) (Ref 19) 5000) s2
            = (Normal True, s2\<lparr>trace := trace s2 @ [Polled True]\<rparr>))"
proof -
  have h: "fn (deref getter_store 11) = Some (Interceptor (Ref 3) (Ref 4))"
     "fn (deref getter_store 3) = Some HostRuns"
     "fn (deref getter_store 4) = Some HostWaitsFor"
     "fn (deref getter_store 16) = Some (UserFn ''stringThenFn'' (Returns (Ref 15)))"
     "\<not> is_deferred_shape getter_store (Ref 15)" "\<not> then_throws getter_store (Ref 15)"
     "closed_store getter_store" "valid_ref getter_store (Ref 15)"
     "primitive Undefined"
    by (simp_all add: getter_store_def getter_heap_def installed_heap_def empty_state_def deref_def
          is_deferred_shape_def then_throws_def closed_store_def valid_ref_def slot_value_def
          primitive_def)
  have l: "length (heap getter_store) = 17" "results getter_store = []" "queue getter_store = []"
      "getter_trace getter_store (Ref 15) = [Called ''get then'' (Ref 15) []]"
    by (simp_all add: getter_store_def getter_heap_def installed_heap_def empty_state_def
          getter_trace_def deref_def)
  from non_deferred_released_at_once[OF h, of 0 "Ref 5" Undefined 0 0] h l
  show ?thesis
    by (simp add: poll_timeout_def defaultTimeoutInterval_def eval_nat_numeral)
qed





text \<open>
  C1 fails on the code. The interceptor hands the follow-up to the host's \<^verbatim>\<open>runs\<close>
  and nothing more: \<^verbatim>\<open>onReleaseWait\<close> takes no parameter, so the value of the
  fulfilment is dropped, and the host calls a step with no argument. In the whole test,
  whatever the value \<open>v\<close> of the fulfilment, the follow-up is called with the empty
  argument list.
\<close>

theorem follow_up_receives_nothing:
  "fst (follow_up_run v) = Normal ()
   \<and> trace (snd (follow_up_run v)) =
       [RunsCalled (Ref 5) [Ref 14], WaitsForCalled (Ref 5) [Ref 15, Undefined],
        RunsCalled (Ref 5) [Ref 9],
        Called ''runFn'' Undefined [], Polled False, Polled True,
        Called ''expectFn'' (Ref 5) []]
   \<and> settled (snd (follow_up_run v)) = [(0, Fulfilled v)]"
  by (simp add: follow_up_run_def jasmineAsPromised_def host_store_def host_heap_def
        empty_state_def alloc_eq deref_def eval_nat_numeral invoke_Suc interceptor_def
        host_runs_def host_waitsFor_def Let_def run_block_def adapter_def isPromise_def
        then_register_def latch_def pass_time_def apply_tick_def flush_def onReleaseWait_def
        defaultTimeoutInterval_def TIMEOUT_INCREMENT_def)

section \<open>The latch only ever goes from false to true\<close>

lemma latches_kept_nth:
  "latches_kept xs ys \<longleftrightarrow> length xs \<le> length ys \<and> (\<forall>i<length xs. xs ! i \<longrightarrow> ys ! i)"
  by (auto simp: latches_kept_def list_all2_conv_all_nth)

lemma kept_refl [simp]: "kept s s"
  by (simp add: kept_def latches_kept_nth)

lemma kept_trans: "kept s s1 \<Longrightarrow> kept s1 s2 \<Longrightarrow> kept s s2"
  by (fastforce simp: kept_def latches_kept_nth)

lemma kept_same: "results s' = results s \<Longrightarrow> kept s s'"
  by (simp add: kept_def latches_kept_nth)

lemma kept_append: "results s' = results s @ xs \<Longrightarrow> kept s s'"
  by (simp add: kept_def latches_kept_nth nth_append)

lemma kept_set: "results s' = (results s)[k := True] \<Longrightarrow> kept s s'"
proof -
  have "xs ! i \<Longrightarrow> i < length xs \<Longrightarrow> xs[k := True] ! i" for xs :: "bool list" and i
    by (cases "i = k") simp_all
  then show "results s' = (results s)[k := True] \<Longrightarrow> kept s s'"
    by (simp add: kept_def latches_kept_nth)
qed

lemma kept_bind:
  assumes "kept s (snd r)" and "\<And>v s1. kept s1 (snd (g v s1))"
  shows "kept s (snd (bind_c r g))"
proof (cases r)
  case (Pair c s1)
  with assms(1) have k: "kept s s1" by simp
  show ?thesis
  proof (cases c)
    case (Normal v)
    with Pair kept_trans[OF k assms(2)[of s1 v]] show ?thesis by simp
  qed (use Pair k in simp_all)
qed

lemma results_run_user [simp]: "results (snd (run_user name body this args s)) = results s"
  by (cases body) simp_all

lemma results_get_prop [simp]: "results (snd (get_prop x p s)) = results s"
  by (cases x) (simp_all split: option.splits slot.splits)

lemma results_isPromise [simp]: "results (snd (isPromise x s)) = results s"
proof -
  obtain c s1 where g: "get_prop x ''then'' s = (c, s1)" by (cases "get_prop x ''then'' s")
  with results_get_prop[of x "''then''" s] have "results s1 = results s" by simp
  with g show ?thesis by (cases c) (simp_all add: isPromise_def)
qed

lemma kept_adapter:
  assumes "\<And>f this args s. kept s (snd (call f this args s))"
  shows "kept s (snd (adapter call runFn onRW s))"
  unfolding adapter_def
  apply (rule kept_bind, rule assms)
  apply (rule kept_bind, rule kept_same, simp)
  apply (simp split: if_splits)
  apply (intro conjI impI)
  apply (rule kept_bind, rule kept_same, simp)
  apply (rule kept_bind, rule assms, simp)
  apply (rule kept_bind, rule assms, simp)
  done

lemma kept_interceptor:
  assumes "\<And>f this args s. kept s (snd (call f this args s))"
  shows "kept s (snd (interceptor call r w this args s))"
  unfolding interceptor_def Let_def alloc_eq split_beta fst_conv snd_conv
  apply (rule kept_trans[where ?s1.0 = "s\<lparr>results := results s @ [False]\<rparr>"])
  apply (rule kept_append, simp)
  apply (rule kept_bind)
  apply (rule kept_trans[OF _ assms], rule kept_same, simp)
  apply (rule kept_bind)
  apply (rule kept_trans[OF _ assms], rule kept_same, simp)
  apply (simp split: if_splits)
  apply (intro conjI impI)
  apply (rule kept_bind, rule assms, simp)
  done

lemma kept_toStringOf:
  assumes "\<And>f this args s. kept s (snd (call f this args s))"
  shows "kept s (snd (toStringOf call r s))"
proof (cases r)
  case (Ref a)
  show ?thesis
  proof (cases "map_of (props (deref s a)) ''toString''")
    case None
    with Ref show ?thesis by (simp add: toStringOf_def split: option.splits)
  next
    case (Some sl)
    have "kept s (snd (bind_c (get_prop r ''toString'' s) (\<lambda>f s1. call f r [] s1)))"
      by (rule kept_bind, rule kept_same, simp, rule assms)
    with Ref Some show ?thesis by (simp add: toStringOf_def)
  qed
qed (simp_all add: toStringOf_def)

lemma kept_dispatch:
  assumes "\<And>f this args s. kept s (snd (call f this args s))"
  shows "kept s (snd (dispatch call f this args s))"
proof (cases f)
  case (Ref a)
  show ?thesis
  proof (cases "fn (deref s a)")
    case None
    with Ref show ?thesis by (simp add: dispatch_def)
  next
    case (Some c)
    with Ref show ?thesis
      using kept_interceptor[of call, OF assms] kept_adapter[of call, OF assms]
        kept_toStringOf[of call, OF assms]
      by (cases c)
         (simp_all add: dispatch_def host_runs_def host_waitsFor_def then_register_def
            onReleaseWait_def latch_def kept_same kept_set split_beta)
  qed
qed (simp_all add: dispatch_def)

lemma kept_invoke: "kept s (snd (invoke n f this args s))"
proof (induction n arbitrary: f this args s)
  case 0
  show ?case by simp
next
  case (Suc n)
  show ?case unfolding invoke.simps(2) by (rule kept_dispatch) (rule Suc.IH)
qed

lemma kept_fire_all:
  assumes "\<And>f this args s. kept s (snd (call f this args s))"
  shows "kept s (snd (fire_all call rs s))"
proof (induction rs arbitrary: s)
  case Nil
  show ?case by simp
next
  case (Cons r rs)
  obtain p onOk onErr where r: "r = (p, onOk, onErr)" by (cases r)
  show ?case
  proof (cases "map_of (settled s) p")
    case None
    with r Cons.IH show ?thesis by simp
  next
    case (Some out)
    define cb where "cb = (case out of Fulfilled x \<Rightarrow> onOk | Rejected x \<Rightarrow> onErr)"
    define v where "v = (case out of Fulfilled x \<Rightarrow> x | Rejected x \<Rightarrow> x)"
    have pair: "(case out of Fulfilled x \<Rightarrow> (onOk, x) | Rejected x \<Rightarrow> (onErr, x)) = (cb, v)"
      by (cases out) (simp_all add: cb_def v_def)
    show ?thesis
    proof (cases "typeof s cb = ''function''")
      case False
      with r Some pair Cons.IH show ?thesis by simp
    next
      case True
      obtain c s1 where res: "call cb Undefined [v] s = (c, s1)" by (cases "call cb Undefined [v] s")
      with assms[of s cb Undefined "[v]"] have k1: "kept s s1" by simp
      from r Some pair True res kept_trans[OF k1 Cons.IH[of s1]] k1 show ?thesis
        by (cases c) simp_all
    qed
  qed
qed

lemma kept_pass_time:
  assumes "\<And>f this args s. kept s (snd (call f this args s))"
  shows "kept s (snd (pass_time call s))"
proof -
  have fl: "kept s0 (snd (flush call s0))" for s0
    unfolding flush_def
    by (rule kept_trans[OF _ kept_fire_all[of call, OF assms]]) (simp add: kept_same)
  have ap: "kept s1 (apply_tick t s1)" for t s1
    by (simp add: apply_tick_def kept_same split: tick.splits option.splits)
  show ?thesis
  proof (cases "world s")
    case Nil
    with fl show ?thesis by (simp add: pass_time_def)
  next
    case (Cons t ts)
    have "kept s (apply_tick t (s\<lparr>world := ts\<rparr>))"
      by (rule kept_trans[OF _ ap]) (simp add: kept_same)
    from kept_trans[OF this fl] Cons show ?thesis by (simp add: pass_time_def)
  qed
qed

lemma kept_wait_loop:
  assumes "\<And>f this args s. kept s (snd (call f this args s))"
  shows "kept s (snd (wait_loop n call spec cond timeout waited s))"
proof (induction n arbitrary: waited s)
  case 0
  show ?case by simp
next
  case (Suc n)
  obtain c s1 where res: "call cond spec [] s = (c, s1)" by (cases "call cond spec [] s")
  with assms[of s cond spec "[]"] have k1: "kept s s1" by simp
  show ?case
  proof (cases c)
    case (Normal v)
    let ?s2 = "s1\<lparr>trace := trace s1 @ [Polled (truthy v)]\<rparr>"
    have k2: "kept s ?s2" by (rule kept_trans[OF k1]) (simp add: kept_same)
    have k3: "kept ?s2 (snd (bind_c (pass_time call ?s2)
                 (\<lambda>u s3. wait_loop n call spec cond timeout (waited + TIMEOUT_INCREMENT) s3)))"
      by (rule kept_bind, rule kept_pass_time, rule assms, rule Suc.IH)
    have k4: "kept s (?s2\<lparr>trace := trace ?s2 @ [TimedOut timeout]\<rparr>)"
      by (rule kept_trans[OF k2]) (simp add: kept_same)
    from res Normal k2 kept_trans[OF k2 k3] k4 show ?thesis by (auto simp: Let_def)
  next
    case (Throw e)
    have "kept s (s1\<lparr>trace := trace s1 @ [SpecFailed e]\<rparr>)"
      by (rule kept_trans[OF k1]) (simp add: kept_same)
    with res Throw show ?thesis by simp
  next
    case OutOfFuel
    with res k1 show ?thesis by simp
  qed
qed

lemma kept_run_block: "kept s (snd (run_block n b s))"
proof (cases b)
  case (RunBlock spec f)
  obtain c s1 where res: "invoke n f spec [] s = (c, s1)" by (cases "invoke n f spec [] s")
  with kept_invoke[of s n f spec "[]"] have k1: "kept s s1" by simp
  have "kept s (s1\<lparr>trace := trace s1 @ [SpecFailed e]\<rparr>)" for e
    by (rule kept_trans[OF k1]) (simp add: kept_same)
  with RunBlock res k1 show ?thesis by (cases c) (simp_all add: run_block_def)
next
  case (WaitsForBlock spec cond timeout)
  then show ?thesis by (simp add: run_block_def kept_wait_loop kept_invoke)
qed

lemma kept_run_queue: "kept s (snd (run_queue n s))"
proof (induction n arbitrary: s)
  case 0
  show ?case by (simp split: list.splits)
next
  case (Suc n)
  show ?case
  proof (cases "queue s")
    case Nil
    then show ?thesis by simp
  next
    case (Cons b rest)
    obtain c s1 where res: "run_block n b (s\<lparr>queue := []\<rparr>) = (c, s1)"
      by (cases "run_block n b (s\<lparr>queue := []\<rparr>)")
    have "kept s (s\<lparr>queue := []\<rparr>)" by (simp add: kept_same)
    from kept_trans[OF this kept_run_block[of "s\<lparr>queue := []\<rparr>" n b]] res
    have k1: "kept s s1" by simp
    have k2: "kept s (s1\<lparr>queue := []\<rparr>)" by (rule kept_trans[OF k1]) (simp add: kept_same)
    have k3: "kept s (snd (run_queue n (s1\<lparr>queue := queue s1 @ rest\<rparr>)))"
      by (rule kept_trans[OF k1], rule kept_trans[OF _ Suc.IH]) (simp add: kept_same)
    from Cons res k1 k2 k3 show ?thesis by (cases c) simp_all
  qed
qed

text \<open>
  C7. The latch of an activation of the interceptor starts false: the activation adds
  one cell, false, to the latches. The only assignment to a latch, in \<^verbatim>\<open>onReleaseWait\<close>,
  writes true. So no call of any function, no settlement and no step of the runner
  takes a latch from true to false, and a poll condition that has returned true returns
  true in every later state.
\<close>

theorem latch_monotonic:
  "(fn (deref s r) = Some HostRuns \<and> fn (deref s w) = Some HostWaitsFor \<longrightarrow>
      results (snd (interceptor (invoke (Suc n)) (Ref r) (Ref w) this args s)) = results s @ [False])
   \<and> results (snd (onReleaseWait k s)) = (results s)[k := True]
   \<and> latches_kept (results s) (results (snd (invoke n f this args s)))
   \<and> latches_kept (results s) (results (snd (pass_time (invoke n) s)))
   \<and> latches_kept (results s) (results (snd (run_block n b s)))
   \<and> latches_kept (results s) (results (snd (run_queue n s)))
   \<and> (latches_kept (results s) (results s') \<and> latch k s = (Normal (Bool True), s) \<longrightarrow>
        latch k s' = (Normal (Bool True), s'))"
proof -
  have fresh: "results (snd (interceptor (invoke (Suc n)) (Ref r) (Ref w) this args s)) = results s @ [False]"
    if "fn (deref s r) = Some HostRuns" "fn (deref s w) = Some HostWaitsFor"
    using that
    by (simp add: interceptor_def alloc_eq Let_def invoke_Suc host_runs_def host_waitsFor_def
          deref_def nth_append split_beta split: if_splits)
  have later: "latch k s' = (Normal (Bool True), s')"
    if "latches_kept (results s) (results s')" "latch k s = (Normal (Bool True), s)"
    using that by (auto simp: latches_kept_nth latch_def)
  from fresh later
    kept_invoke[of s n f this args] kept_pass_time[of "invoke n" s, OF kept_invoke]
    kept_run_block[of s n b] kept_run_queue[of s n]
  show ?thesis
    by (simp add: kept_def onReleaseWait_def)
qed

text \<open>A second activation of the installed interceptor, in a state where the latch
  of a first one is already true.\<close>

theorem latch_monotonic_witness:
  "fn (deref (installed_store\<lparr>results := [True]\<rparr>) 3) = Some HostRuns
   \<and> fn (deref (installed_store\<lparr>results := [True]\<rparr>) 4) = Some HostWaitsFor
   \<and> results (snd (interceptor (invoke 3) (Ref 3) (Ref 4) (Ref 5) [Ref 10] (installed_store\<lparr>results := [True]\<rparr>)))
       = [True, False]
   \<and> latches_kept [True]
        (results (snd (invoke 2 (Ref 11) (Ref 5) [Ref 10] (installed_store\<lparr>results := [True]\<rparr>))))
   \<and> latch 0 (installed_store\<lparr>results := [True]\<rparr>)
       = (Normal (Bool True), installed_store\<lparr>results := [True]\<rparr>)
   \<and> latch 0 (snd (invoke 2 (Ref 11) (Ref 5) [Ref 10] (installed_store\<lparr>results := [True]\<rparr>)))
       = (Normal (Bool True), snd (invoke 2 (Ref 11) (Ref 5) [Ref 10] (installed_store\<lparr>results := [True]\<rparr>)))"
proof -
  let ?s = "installed_store\<lparr>results := [True]\<rparr>"
  let ?s' = "snd (invoke 2 (Ref 11) (Ref 5) [Ref 10] ?s)"
  have h: "fn (deref ?s 3) = Some HostRuns" "fn (deref ?s 4) = Some HostWaitsFor"
    by (simp_all add: installed_store_def installed_heap_def empty_state_def deref_def)
  have l: "latch 0 ?s = (Normal (Bool True), ?s)" by (simp add: latch_def)
  note m = latch_monotonic[where s = ?s and r = 3 and w = 4 and n = 2 and this = "Ref 5"
      and args = "[Ref 10]" and k = 0 and f = "Ref 11" and s' = ?s']
  from m h have a: "results (snd (interceptor (invoke 3) (Ref 3) (Ref 4) (Ref 5) [Ref 10] ?s)) = [True, False]"
    by (simp add: eval_nat_numeral)
  from m have b: "latches_kept [True] (results ?s')" by simp
  from m b l have d: "latch 0 ?s' = (Normal (Bool True), ?s')" by simp
  from h a b l d show ?thesis by simp
qed

section \<open>Installation\<close>

lemma flag_run_user [simp]:
  "duckPunchedAlready (snd (run_user name body this args s)) = duckPunchedAlready s"
  by (cases body) simp_all

lemma flag_get_prop [simp]:
  "duckPunchedAlready (snd (get_prop x p s)) = duckPunchedAlready s"
  by (cases x) (simp_all split: option.splits slot.splits)

lemma flag_set_prop [simp]:
  "duckPunchedAlready (snd (set_prop x p v s)) = duckPunchedAlready s"
  by (cases x) (simp_all split: option.splits slot.splits)

lemma already_installed:
  "duckPunchedAlready s \<Longrightarrow> jasmineAsPromised j s = (Normal Undefined, s)"
  by (simp add: jasmineAsPromised_def)

lemma flag_bind:
  assumes "duckPunchedAlready (snd r)"
    and "\<And>v s1. duckPunchedAlready s1 \<Longrightarrow> duckPunchedAlready (snd (g v s1))"
  shows "duckPunchedAlready (snd (bind_c r g))"
  using assms by (cases r, cases "fst r") (auto simp: bind_c_def split: completion.splits)

lemma flag_after_attempt:
  assumes "\<not> duckPunchedAlready s" and "j \<noteq> Undefined"
  shows "duckPunchedAlready (snd (jasmineAsPromised j s))"
  using assms
  unfolding jasmineAsPromised_def
  apply (simp add: alloc_eq Let_def split_beta)
  apply (intro flag_bind | simp)+
  done

lemma install_on_valid_handle:
  assumes "\<not> duckPunchedAlready s"
    and "map_of (props (deref s a)) ''Spec'' = Some (Data (Ref b))"
    and "map_of (props (deref s b)) ''prototype'' = Some (Data (Ref c))"
    and "map_of (props (deref s c)) ''runs'' = Some (Data r0)"
    and "map_of (props (deref s c)) ''waitsFor'' = Some (Data w0)"
  shows "jasmineAsPromised (Ref a) s =
     (Normal Undefined,
      s\<lparr>heap := (heap s @
           [\<lparr>fn = Some (Interceptor r0 w0), props = [(''toString'', Data (Ref (Suc (length (heap s)))))]\<rparr>,
            \<lparr>fn = Some (ToStringOf r0), props = []\<rparr>])
           [c := (deref s c)\<lparr>props := (''runs'', Data (Ref (length (heap s))))
                    # filter (\<lambda>kv. fst kv \<noteq> ''runs'') (props (deref s c))\<rparr>],
        duckPunchedAlready := True\<rparr>)"
proof -
  have inh: "a < length (heap s)" "b < length (heap s)" "c < length (heap s)"
    using props_deref_in[OF assms(2)] props_deref_in[OF assms(3)] props_deref_in[OF assms(4)]
    by simp_all
  have old: "deref (s\<lparr>duckPunchedAlready := True, heap := heap s @ obs\<rparr>) x = deref s x"
    if "x < length (heap s)" for x obs
    using that by (simp add: deref_def nth_append)
  have old': "deref (s\<lparr>duckPunchedAlready := True, heap := (heap s @ obs)[length (heap s) := ob]\<rparr>) x = deref s x"
    if "x < length (heap s)" for x obs ob
    using that by (simp add: deref_def nth_append nth_list_update)
  show ?thesis
    using assms inh
    by (simp add: jasmineAsPromised_def alloc_eq old old' list_update_append1)
qed

lemma map_of_without:
  "map_of (filter (\<lambda>kv. fst kv \<noteq> p) xs) q = (if q = p then None else map_of xs q)"
  by (induction xs) auto

text \<open>
  C4. Once the flag is set a call of the activation function returns at once and
  changes nothing, whatever its argument; so does a call without a handle. After a
  first installation that succeeded the flag is set. On a host handle the first
  installation puts one interceptor in place of the prototype's \<^verbatim>\<open>runs\<close>, which holds
  the \<^verbatim>\<open>runs\<close> and \<^verbatim>\<open>waitsFor\<close> that were there before; a second installation, on this
  handle or another, leaves that state as it is, so the interceptor is never wrapped in
  a second one.
\<close>

theorem installation_idempotent:
  "(duckPunchedAlready s \<longrightarrow> jasmineAsPromised j s = (Normal Undefined, s))
   \<and> jasmineAsPromised Undefined s = (Normal Undefined, s)
   \<and> (\<not> duckPunchedAlready s \<and> j \<noteq> Undefined \<and> jasmineAsPromised j s = (Normal v, s1) \<longrightarrow>
        duckPunchedAlready s1 \<and> jasmineAsPromised j' s1 = (Normal Undefined, s1))
   \<and> (\<not> duckPunchedAlready s
        \<and> map_of (props (deref s a)) ''Spec'' = Some (Data (Ref b))
        \<and> map_of (props (deref s b)) ''prototype'' = Some (Data (Ref c))
        \<and> map_of (props (deref s c)) ''runs'' = Some (Data r0)
        \<and> map_of (props (deref s c)) ''waitsFor'' = Some (Data w0) \<longrightarrow>
        (\<exists>s2. jasmineAsPromised (Ref a) s = (Normal Undefined, s2)
           \<and> map_of (props (deref s2 c)) ''runs'' = Some (Data (Ref (length (heap s))))
           \<and> map_of (props (deref s2 c)) ''waitsFor'' = Some (Data w0)
           \<and> fn (deref s2 (length (heap s))) = Some (Interceptor r0 w0)
           \<and> jasmineAsPromised (Ref a) s2 = (Normal Undefined, s2)
           \<and> jasmineAsPromised j' s2 = (Normal Undefined, s2)))"
proof -
  have first: "duckPunchedAlready s1 \<and> jasmineAsPromised j' s1 = (Normal Undefined, s1)"
    if "\<not> duckPunchedAlready s" "j \<noteq> Undefined" "jasmineAsPromised j s = (Normal v, s1)"
  proof -
    from flag_after_attempt[OF that(1,2)] that(3) have "duckPunchedAlready s1" by simp
    then show ?thesis by (simp add: already_installed)
  qed
  have valid: "\<exists>s2. jasmineAsPromised (Ref a) s = (Normal Undefined, s2)
           \<and> map_of (props (deref s2 c)) ''runs'' = Some (Data (Ref (length (heap s))))
           \<and> map_of (props (deref s2 c)) ''waitsFor'' = Some (Data w0)
           \<and> fn (deref s2 (length (heap s))) = Some (Interceptor r0 w0)
           \<and> jasmineAsPromised (Ref a) s2 = (Normal Undefined, s2)
           \<and> jasmineAsPromised j' s2 = (Normal Undefined, s2)"
    if h: "\<not> duckPunchedAlready s"
      "map_of (props (deref s a)) ''Spec'' = Some (Data (Ref b))"
      "map_of (props (deref s b)) ''prototype'' = Some (Data (Ref c))"
      "map_of (props (deref s c)) ''runs'' = Some (Data r0)"
      "map_of (props (deref s c)) ''waitsFor'' = Some (Data w0)"
  proof -
    have c: "c < length (heap s)" using props_deref_in[OF h(4)] .
    have w: "map_of (filter (\<lambda>kv. fst kv \<noteq> ''runs'') (props (deref s c))) ''waitsFor'' = Some (Data w0)"
      using h(5) by (simp add: map_of_without)
    show ?thesis
      unfolding install_on_valid_handle[OF h]
      using c w by (simp add: deref_def nth_append nth_list_update already_installed)
  qed
  from first valid show ?thesis
    by (simp add: already_installed jasmineAsPromised_def) blast
qed

text \<open>The host of \<open>host_store\<close>: the first installation gives \<open>installed_store\<close>, the
  second leaves it.\<close>

theorem installation_idempotent_witness:
  "\<not> duckPunchedAlready host_store
   \<and> map_of (props (deref host_store 0)) ''Spec'' = Some (Data (Ref 1))
   \<and> map_of (props (deref host_store 1)) ''prototype'' = Some (Data (Ref 2))
   \<and> map_of (props (deref host_store 2)) ''runs'' = Some (Data (Ref 3))
   \<and> map_of (props (deref host_store 2)) ''waitsFor'' = Some (Data (Ref 4))
   \<and> jasmineAsPromised (Ref 0) host_store = (Normal Undefined, installed_store)
   \<and> duckPunchedAlready installed_store
   \<and> jasmineAsPromised (Ref 0) installed_store = (Normal Undefined, installed_store)
   \<and> map_of (props (deref installed_store 2)) ''runs'' = Some (Data (Ref 11))
   \<and> fn (deref installed_store 11) = Some (Interceptor (Ref 3) (Ref 4))
   \<and> fn (deref installed_store 3) = Some HostRuns"
proof -
  have h: "\<not> duckPunchedAlready host_store"
    "map_of (props (deref host_store 0)) ''Spec'' = Some (Data (Ref 1))"
    "map_of (props (deref host_store 1)) ''prototype'' = Some (Data (Ref 2))"
    "map_of (props (deref host_store 2)) ''runs'' = Some (Data (Ref 3))"
    "map_of (props (deref host_store 2)) ''waitsFor'' = Some (Data (Ref 4))"
    by (simp_all add: host_store_def host_heap_def empty_state_def deref_def)
  have e: "jasmineAsPromised (Ref 0) host_store = (Normal Undefined, installed_store)"
    by (simp add: jasmineAsPromised_def host_store_def installed_store_def empty_state_def
          host_heap_def installed_heap_def deref_def alloc_def)
  have l: "length (heap host_store) = 11"
    by (simp add: host_store_def host_heap_def empty_state_def)
  note t = installation_idempotent[where s = host_store and j = "Ref 0" and j' = "Ref 0"
      and v = Undefined and ?s1.0 = installed_store and a = 0 and b = 1 and c = 2
      and ?r0.0 = "Ref 3" and ?w0.0 = "Ref 4"]
  from t h e have again: "duckPunchedAlready installed_store"
    "jasmineAsPromised (Ref 0) installed_store = (Normal Undefined, installed_store)"
    by blast+
  from t h e l have wrapped:
    "map_of (props (deref installed_store 2)) ''runs'' = Some (Data (Ref 11))"
    "fn (deref installed_store 11) = Some (Interceptor (Ref 3) (Ref 4))"
    by auto
  have orig: "fn (deref installed_store 3) = Some HostRuns"
    by (simp add: installed_store_def installed_heap_def empty_state_def deref_def)
  from h e again wrapped orig show ?thesis by blast
qed

text \<open>
  C10. A handle that is defined but is no framework object: the flag is set before
  \<^verbatim>\<open>jasmine.Spec.prototype\<close> is read. On \<^verbatim>\<open>null\<close>, and on an object without \<^verbatim>\<open>Spec\<close>,
  the read throws a TypeError and the state that is left differs from the one before
  only in the flag, now true. Whenever an installation throws, the flag is left true,
  and every later call, also with a handle on which installation would have succeeded,
  returns at once without touching the prototype.
\<close>

theorem failed_installation_sticks:
  "(\<not> duckPunchedAlready s \<longrightarrow>
      jasmineAsPromised Null s =
        (Throw (TypeError ''Cannot read property Spec of null''), s\<lparr>duckPunchedAlready := True\<rparr>))
   \<and> (\<not> duckPunchedAlready s \<and> map_of (props (deref s a)) ''Spec'' = None \<longrightarrow>
      jasmineAsPromised (Ref a) s =
        (Throw (TypeError ''Cannot read property prototype of undefined''),
         s\<lparr>duckPunchedAlready := True\<rparr>))
   \<and> (\<not> duckPunchedAlready s \<and> jasmineAsPromised j s = (Throw e, s1) \<longrightarrow>
        duckPunchedAlready s1 \<and> jasmineAsPromised j' s1 = (Normal Undefined, s1))"
proof -
  have sticks: "duckPunchedAlready s1 \<and> jasmineAsPromised j' s1 = (Normal Undefined, s1)"
    if "\<not> duckPunchedAlready s" "jasmineAsPromised j s = (Throw e, s1)"
  proof -
    from that have "j \<noteq> Undefined" by (auto simp: jasmineAsPromised_def)
    from flag_after_attempt[OF that(1) this] that(2) have "duckPunchedAlready s1" by simp
    then show ?thesis by (simp add: already_installed)
  qed
  then show ?thesis
    by (auto simp: jasmineAsPromised_def)
qed

text \<open>The host of \<open>host_store\<close>: installation on \<^verbatim>\<open>null\<close> throws and sets the flag;
  installation on the real handle then does nothing, and the prototype keeps the host's
  \<^verbatim>\<open>runs\<close>.\<close>

theorem failed_installation_sticks_witness:
  "\<not> duckPunchedAlready host_store
   \<and> jasmineAsPromised Null host_store =
        (Throw (TypeError ''Cannot read property Spec of null''),
         host_store\<lparr>duckPunchedAlready := True\<rparr>)
   \<and> map_of (props (deref host_store 5)) ''Spec'' = None
   \<and> jasmineAsPromised (Ref 5) host_store =
        (Throw (TypeError ''Cannot read property prototype of undefined''),
         host_store\<lparr>duckPunchedAlready := True\<rparr>)
   \<and> duckPunchedAlready (host_store\<lparr>duckPunchedAlready := True\<rparr>)
   \<and> jasmineAsPromised (Ref 0) (host_store\<lparr>duckPunchedAlready := True\<rparr>) =
        (Normal Undefined, host_store\<lparr>duckPunchedAlready := True\<rparr>)
   \<and> map_of (props (deref (host_store\<lparr>duckPunchedAlready := True\<rparr>) 2)) ''runs'' = Some (Data (Ref 3))"
proof -
  have h: "\<not> duckPunchedAlready host_store" "map_of (props (deref host_store 5)) ''Spec'' = None"
    by (simp_all add: host_store_def host_heap_def empty_state_def deref_def)
  note t = failed_installation_sticks[where s = host_store and a = 5 and j = Null
      and j' = "Ref 0" and ?s1.0 = "host_store\<lparr>duckPunchedAlready := True\<rparr>"
      and e = "TypeError ''Cannot read property Spec of null''"]
  from t h have n: "jasmineAsPromised Null host_store =
        (Throw (TypeError ''Cannot read property Spec of null''),
         host_store\<lparr>duckPunchedAlready := True\<rparr>)"
    by blast
  from t h have o: "jasmineAsPromised (Ref 5) host_store =
        (Throw (TypeError ''Cannot read property prototype of undefined''),
         host_store\<lparr>duckPunchedAlready := True\<rparr>)"
    by blast
  from t h n have later: "duckPunchedAlready (host_store\<lparr>duckPunchedAlready := True\<rparr>)"
    "jasmineAsPromised (Ref 0) (host_store\<lparr>duckPunchedAlready := True\<rparr>) =
        (Normal Undefined, host_store\<lparr>duckPunchedAlready := True\<rparr>)"
    by blast+
  have p: "map_of (props (deref (host_store\<lparr>duckPunchedAlready := True\<rparr>) 2)) ''runs'' = Some (Data (Ref 3))"
    by (simp add: host_store_def host_heap_def empty_state_def deref_def)
  from h n o later p show ?thesis by blast
qed

section \<open>The Node.js entry point\<close>

lemma indexOf_ends_with:
  "indexOf str suf (int (length str) - int (length suf)) \<noteq> - 1 \<longleftrightarrow> ends_with suf str"
proof (cases "length suf \<le> length str")
  case True
  let ?k = "length str - length suf"
  have k: "nat (max 0 (min (int (length str) - int (length suf)) (int (length str)))) = ?k"
    using True by simp
  have later: "take (length suf) (drop i str) \<noteq> suf" if "?k < i" "i \<le> length str" for i
  proof
    assume "take (length suf) (drop i str) = suf"
    then have "length (take (length suf) (drop i str)) = length suf" by simp
    with that True show False by (simp add: min_def split: if_splits)
  qed
  have at: "take (length suf) (drop ?k str) = drop ?k str" using True by simp
  have ex: "(\<exists>i. i \<in> set [?k ..< Suc (length str)] \<and> take (length suf) (drop i str) = suf)
          \<longleftrightarrow> drop ?k str = suf"
  proof
    assume "\<exists>i. i \<in> set [?k ..< Suc (length str)] \<and> take (length suf) (drop i str) = suf"
    then obtain i where i: "?k \<le> i" "i \<le> length str" "take (length suf) (drop i str) = suf"
      by auto
    with later[of i] have "i = ?k" by (cases "i = ?k") auto
    with i at show "drop ?k str = suf" by simp
  next
    assume "drop ?k str = suf"
    with at have "take (length suf) (drop ?k str) = suf" by simp
    moreover have "?k \<in> set [?k ..< Suc (length str)]" by auto
    ultimately show "\<exists>i. i \<in> set [?k ..< Suc (length str)] \<and> take (length suf) (drop i str) = suf"
      by blast
  qed
  have "find (\<lambda>i. take (length suf) (drop i str) = suf) [?k ..< Suc (length str)] \<noteq> None
          \<longleftrightarrow> drop ?k str = suf"
    unfolding find_None_iff using ex by blast
  with True show ?thesis
    unfolding indexOf_def k ends_with_def by (auto split: option.splits)
next
  case False
  have "take (length suf) (drop i str) \<noteq> suf" for i
  proof
    assume "take (length suf) (drop i str) = suf"
    then have "length (take (length suf) (drop i str)) = length suf" by simp
    with False show False by simp
  qed
  then have "find (\<lambda>i. take (length suf) (drop i str) = suf) xs = None" for xs
    by (simp add: find_None_iff)
  with False show ?thesis by (simp add: indexOf_def ends_with_def)
qed

lemma find_truthy_or_undefined:
  "truthy (findNodeJSTarget m suf) \<or> findNodeJSTarget m suf = Undefined"
  "truthy (findInChildren ms suf) \<or> findInChildren ms suf = Undefined"
  by (induction m suf and ms suf rule: findNodeJSTarget_findInChildren.induct)
     (auto simp: Let_def)

lemma find_undefined_iff:
  "findNodeJSTarget m suf = Undefined \<longleftrightarrow> \<not> list_ex (is_target suf) (modules_of m)"
  "findInChildren ms suf = Undefined \<longleftrightarrow> \<not> list_ex (is_target suf) (modules_of_list ms)"
proof (induction m suf and ms suf rule: findNodeJSTarget_findInChildren.induct)
  case (1 mid exports children suffix)
  then show ?case
    by (auto simp: is_target_def indexOf_ends_with)
next
  case (2 suffix)
  show ?case by simp
next
  case (3 c cs suffix)
  with find_truthy_or_undefined(1)[of c suffix] show ?case
    by (auto simp: Let_def)
qed

text \<open>Where discovery fails with the library's own messages: in Node, when no module
  of the tree has an id that ends with \<^verbatim>\<open>jasmine/lib/jasmine.js\<close> and truthy exports;
  outside Node, when the global \<^verbatim>\<open>jasmine\<close> is declared and \<^verbatim>\<open>undefined\<close>. The call
  installs nothing and leaves the state as it was.\<close>

lemma discovery_descriptive_errors:
  "(\<not> truthy target \<and> real_node e \<and> main_module e = Some m
      \<and> \<not> list_ex (is_target (path_join (sep e) [''jasmine'', ''lib'', ''jasmine.js'']))
              (modules_of m) \<longrightarrow>
      module_exports e target s = (Throw (Error msg_no_module), s))
   \<and> (\<not> truthy target \<and> \<not> real_node e \<and> jasmine_global e = Some Undefined \<longrightarrow>
      module_exports e target s = (Throw (Error msg_no_environment), s))"
  by (simp add: module_exports_def find_undefined_iff[symmetric])

text \<open>
  C9 fails on the code. The entry point is called without a handle and there is no
  running Jasmine. Outside Node, when no global \<^verbatim>\<open>jasmine\<close> is declared,
  \<^verbatim>\<open>isDefined(jasmine)\<close> evaluates the undeclared name: the call throws the engine's
  ReferenceError, and the branch that throws the library's message is not reached. In
  Node without a main module, reading \<^verbatim>\<open>moduleToTest.id\<close> throws a TypeError. Outside
  Node with the global \<^verbatim>\<open>jasmine\<close> declared and \<^verbatim>\<open>null\<close>, the installation runs on
  \<^verbatim>\<open>null\<close> and throws a TypeError, with the installed flag left true. The last two
  lines are the paths that do throw the library's messages: Node with a module tree
  that holds no Jasmine module, and a global that is declared and \<^verbatim>\<open>undefined\<close>.
\<close>

theorem discovery_without_descriptive_error:
  "module_exports emulation_without_global Undefined host_store
     = (Throw (ReferenceError ''jasmine is not defined''), host_store)
   \<and> module_exports node_without_main Undefined host_store
     = (Throw (TypeError ''Cannot read property id of undefined''), host_store)
   \<and> module_exports emulation_with_null_global Undefined host_store
     = (Throw (TypeError ''Cannot read property Spec of null''),
        host_store\<lparr>duckPunchedAlready := True\<rparr>)
   \<and> module_exports node_without_jasmine Undefined host_store
     = (Throw (Error msg_no_module), host_store)
   \<and> module_exports emulation_without_jasmine Undefined host_store
     = (Throw (Error msg_no_environment), host_store)"
  by (simp add: module_exports_def emulation_without_global_def node_without_main_def
        emulation_with_null_global_def node_without_jasmine_def emulation_without_jasmine_def
        jasmineAsPromised_def host_store_def empty_state_def path_join_def indexOf_def)

end
